theory Spec2Isabelle
  imports Main "HOL-Library.Multiset"
begin

section \<open>Configuration and errors\<close>

text \<open>
  The agent configuration (\<open>agent/__init__.py\<close>, \<open>Agent.__init__\<close>, and
  \<open>agent/prompt_manager.py\<close>, \<open>PromptManager.__init__\<close>). The two persona templates are
  YAML files read at start-up; their \<open>Role\<close> and \<open>Objective\<close> strings are fields here.
  \<open>stop_sequence\<close> is \<open>stop_sequences[0]\<close>, \<open>persona_name\<close> is \<open>PromptManager.name\<close>.
\<close>

record agent_config =
  model_engine :: string
  max_completion_tokens :: int
  max_prompt_tokens :: int
  max_completion_tries :: int
  user_prepend :: string
  user_append :: string
  log_start :: string
  stop_sequence :: string
  line_separator :: string
  persona_name :: string
  summary_role :: string
  summary_objective :: string
  proposal_role :: string
  proposal_objective :: string

text \<open>The exceptions one attempt of \<open>Agent.complete\<close> can record in \<open>errors\<close>.\<close>

datatype attempt_error =
    Transport string
  | Non200 nat
  | JsonDecode
  | KeyError string

text \<open>The exceptions that leave \<open>Agent.complete\<close>, \<open>Agent.build_prompt\<close> and
  \<open>Agent.yield_response\<close>.\<close>

datatype agent_error =
    UnsupportedEngine
  | CompletionFailed "attempt_error list"
  | SystemPromptExceeds
  | PromptResponseExceeds
  | FormatRaised

section \<open>Agent.complete\<close>

text \<open>
  The JSON object of a 200 response; a key that is absent is \<open>None\<close>.
\<close>

record response_data =
  id_slot :: "int option"
  slot_id :: "int option"
  stopped_eos :: "bool option"
  stopped_word :: "bool option"
  content :: "string option"

text \<open>
  What one \<open>session.post\<close> gives: an exception of the transport, or a response with a
  status and a body (\<open>None\<close> when \<open>response.json()\<close> raises).
\<close>

datatype reply =
    TransportError string
  | Reply nat "response_data option"

text \<open>The request parameters that vary: the prompt and the slot id, sent under both names.\<close>

record request =
  req_prompt :: string
  req_id_slot :: int
  req_slot_id :: int

type_synonym session = nat

text \<open>
  The agent's mutable state: the map \<open>model_conversation_slots\<close>, the number of
  \<open>aiohttp.ClientSession\<close> objects opened so far (the next fresh handle), and the number of
  POST requests issued so far. The backend is a function of the request's index and the
  request.
\<close>

record agent_state =
  model_conversation_slots :: "int \<rightharpoonup> (session \<times> int)"
  sessions_opened :: nat
  posts :: nat

type_synonym backend = "nat \<Rightarrow> request \<Rightarrow> reply"

type_synonym completion = "string \<times> nat \<times> bool"

text \<open>
  Lines 196-199: the slot id of the response, \<open>id_slot\<close> first, then \<open>slot_id\<close>, else
  the current one.
\<close>

definition response_slot :: "int \<Rightarrow> response_data \<Rightarrow> int" where
  "response_slot slot d =
     (case id_slot d of
        Some i \<Rightarrow> i
      | None \<Rightarrow> (case slot_id d of Some j \<Rightarrow> j | None \<Rightarrow> slot))"

text \<open>
  Lines 206-214: \<open>response_data["stopped_eos"] or response_data["stopped_word"]\<close> reads the
  second key only when the first is false; a missing key raises \<open>KeyError\<close>. The token
  count is recomputed by \<open>calculate_number_of_tokens\<close>, here the parameter \<open>tok\<close>.
\<close>

definition response_result :: "(string \<Rightarrow> nat) \<Rightarrow> response_data \<Rightarrow> attempt_error + completion" where
  "response_result tok d =
     (case stopped_eos d of
        None \<Rightarrow> Inl (KeyError ''stopped_eos'')
      | Some e \<Rightarrow>
          (case (if e then Some True else stopped_word d) of
             None \<Rightarrow> Inl (KeyError ''stopped_word'')
           | Some stopped \<Rightarrow>
               (case content d of
                  None \<Rightarrow> Inl (KeyError ''content'')
                | Some result \<Rightarrow> Inr (result, tok result, stopped))))"

text \<open>What one attempt returns or records as its error (lines 189-221).\<close>

fun reply_result :: "(string \<Rightarrow> nat) \<Rightarrow> reply \<Rightarrow> attempt_error + completion" where
  "reply_result tok (TransportError m) = Inl (Transport m)"
| "reply_result tok (Reply status body) =
     (if status = 200 then
        (case body of
           None \<Rightarrow> Inl JsonDecode
         | Some d \<Rightarrow> response_result tok d)
      else Inl (Non200 status))"

text \<open>
  The slot id after one attempt, and whether \<open>model_conversation_slots\<close> was written
  (lines 196-203): only a 200 response whose body was read reaches the write, and it
  does so before the stop flags and the content are looked at.
\<close>

fun reply_slot :: "int \<Rightarrow> reply \<Rightarrow> int option" where
  "reply_slot slot (TransportError m) = None"
| "reply_slot slot (Reply status body) =
     (if status = 200 then
        (case body of
           None \<Rightarrow> None
         | Some d \<Rightarrow> Some (response_slot slot d))
      else None)"

definition store_slot :: "int \<Rightarrow> session \<Rightarrow> int \<Rightarrow> agent_state \<Rightarrow> agent_state" where
  "store_slot conversation_id sess slot st =
     st\<lparr>model_conversation_slots := (model_conversation_slots st)(conversation_id \<mapsto> (sess, slot))\<rparr>"

text \<open>
  The \<open>while tries < max_tries\<close> loop. \<open>params\<close> is built once before the loop, so every
  attempt sends the same request; the local \<open>slot_id\<close> follows the responses.
\<close>

function complete_loop ::
  "agent_config \<Rightarrow> backend \<Rightarrow> (string \<Rightarrow> nat) \<Rightarrow> int \<Rightarrow> session \<Rightarrow> request \<Rightarrow>
   nat \<Rightarrow> attempt_error list \<Rightarrow> int \<Rightarrow> agent_state \<Rightarrow>
   (agent_error + completion) \<times> agent_state" where
  "complete_loop cfg be tok conversation_id sess params tries errors slot st =
     (if int tries < max_completion_tries cfg then
        (let r = be (posts st) params;
             st1 = st\<lparr>posts := Suc (posts st)\<rparr>;
             slot' = (case reply_slot slot r of None \<Rightarrow> slot | Some s \<Rightarrow> s);
             st2 = (case reply_slot slot r of
                      None \<Rightarrow> st1
                    | Some s \<Rightarrow> store_slot conversation_id sess s st1)
         in case reply_result tok r of
              Inr res \<Rightarrow> (Inr res, st2)
            | Inl e \<Rightarrow>
                complete_loop cfg be tok conversation_id sess params
                  (Suc tries) (errors @ [e]) slot' st2)
      else (Inl (CompletionFailed errors), st))"
  by pat_completeness auto
termination
  by (relation "measure (\<lambda>(cfg, be, tok, c, sess, params, tries, errors, slot, st).
        nat (max_completion_tries cfg - int tries))") auto

text \<open>
  Lines 151-155: the session and the slot of the conversation, or a new session with the
  slot \<open>-1\<close>.
\<close>

definition conversation_slot :: "agent_state \<Rightarrow> int \<Rightarrow> session \<times> int \<times> agent_state" where
  "conversation_slot st conversation_id =
     (case model_conversation_slots st conversation_id of
        Some (s, i) \<Rightarrow> (s, i, st)
      | None \<Rightarrow> (sessions_opened st, -1, st\<lparr>sessions_opened := Suc (sessions_opened st)\<rparr>))"

text \<open>Lines 157-178: the request, with the slot id under both names.\<close>

definition request_params :: "string \<Rightarrow> int \<Rightarrow> request" where
  "request_params prompt slot = \<lparr>req_prompt = prompt, req_id_slot = slot, req_slot_id = slot\<rparr>"

text \<open>\<open>Agent.complete\<close>: the slot lookup, the engine check, then the loop.\<close>

definition complete ::
  "agent_config \<Rightarrow> backend \<Rightarrow> (string \<Rightarrow> nat) \<Rightarrow> string \<Rightarrow> int \<Rightarrow> agent_state \<Rightarrow>
   (agent_error + completion) \<times> agent_state" where
  "complete cfg be tok prompt conversation_id st =
     (case conversation_slot st conversation_id of
        (sess, slot, st0) \<Rightarrow>
          (if model_engine cfg = ''llamacpp'' then
             complete_loop cfg be tok conversation_id sess (request_params prompt slot)
               0 [] slot st0
           else (Inl UnsupportedEngine, st0)))"

section \<open>PromptManager\<close>

text \<open>
  The shape \<open>PromptManager.chat_message\<close> reads of a \<open>telebot\<close> or database message: the
  author, the message replied to (one level is read), and the text. Nullable columns are
  options.
\<close>

record user =
  username :: "string option"
  first_name :: "string option"
  last_name :: "string option"

datatype message =
  Message (from_user: user) (reply_to_message: "message option") (message_text: "string option")

text \<open>Python's \<open>x or y\<close> on an optional string: \<open>None\<close> and the empty string are falsy.\<close>

definition or_str :: "string option \<Rightarrow> string \<Rightarrow> string" where
  "or_str x y = (case x of None \<Rightarrow> y | Some s \<Rightarrow> (if s = [] then y else s))"

text \<open>\<open>agent/utils.py\<close>, \<open>fmt_msg_user_name\<close>.\<close>

definition fmt_msg_user_name :: "user \<Rightarrow> string" where
  "fmt_msg_user_name u =
     or_str (username u) (or_str (first_name u) [] @ '' '' @ or_str (last_name u) [])"

text \<open>An f-string renders \<open>None\<close> as the text \<open>None\<close>.\<close>

definition fstr :: "string option \<Rightarrow> string" where
  "fstr t = (case t of None \<Rightarrow> ''None'' | Some s \<Rightarrow> s)"

definition chat_message :: "agent_config \<Rightarrow> message \<Rightarrow> string" where
  "chat_message cfg m =
     (let from_user_name = fmt_msg_user_name (from_user m);
          sender = (case reply_to_message m of
                      None \<Rightarrow> from_user_name
                    | Some r \<Rightarrow>
                        from_user_name @ '' (in reply to '' @ fmt_msg_user_name (from_user r) @ '')'')
      in user_prepend cfg @ sender @ user_append cfg @ fstr (message_text m)
           @ stop_sequence cfg @ line_separator cfg)"

text \<open>The \<open>message\<close> argument of \<open>prompt_response\<close>: absent, a message, or a string.\<close>

datatype prompt_base = NoMessage | OfMessage message | OfString string

definition prompt_response ::
  "agent_config \<Rightarrow> (string \<Rightarrow> nat) \<Rightarrow> prompt_base \<Rightarrow> string \<Rightarrow> int \<Rightarrow> agent_error + (string \<times> nat)" where
  "prompt_response cfg tok msg txt token_limit =
     (let base = (case msg of
                    NoMessage \<Rightarrow> []
                  | OfMessage m \<Rightarrow> chat_message cfg m
                  | OfString s \<Rightarrow> s);
          prompt = base @ user_prepend cfg @ persona_name cfg @ user_append cfg @ txt;
          used_tokens = tok prompt
      in if token_limit = -1 then Inr (prompt, used_tokens)
         else if int used_tokens > token_limit then Inl PromptResponseExceeds
         else Inr (prompt, used_tokens))"

text \<open>
  \<open>value.format(**variables)\<close> is Python's built-in; it is the parameter \<open>fmt\<close>, given the
  template and the values of \<open>char\<close> and \<open>date\<close>, and \<open>None\<close> when it raises.
  \<open>replace("\n", " ")\<close> is \<open>flatten\<close>.
\<close>

type_synonym formatter = "string \<Rightarrow> string \<Rightarrow> string \<Rightarrow> string option"

definition flatten :: "string \<Rightarrow> string" where
  "flatten s = map (\<lambda>c. if c = CHR 0x0A then CHR '' '' else c) s"

fun render_schema :: "formatter \<Rightarrow> string \<Rightarrow> string \<Rightarrow> string list \<Rightarrow> string option" where
  "render_schema fmt char date [] = Some []"
| "render_schema fmt char date (v # vs) =
     (case fmt v char date of
        None \<Rightarrow> None
      | Some formatted \<Rightarrow>
          (case render_schema fmt char date vs of
             None \<Rightarrow> None
           | Some svs \<Rightarrow> Some (flatten formatted @ svs)))"

text \<open>
  The body shared, word for word, by \<open>summary_system_prompt\<close> and
  \<open>proposal_system_prompt\<close>; they differ in the schema only.
\<close>

definition system_prompt_of ::
  "agent_config \<Rightarrow> (string \<Rightarrow> nat) \<Rightarrow> formatter \<Rightarrow> string \<Rightarrow> string list \<Rightarrow> int \<Rightarrow>
   agent_error + (string \<times> nat)" where
  "system_prompt_of cfg tok fmt date schema token_limit =
     (case render_schema fmt (persona_name cfg) date schema of
        None \<Rightarrow> Inl FormatRaised
      | Some body \<Rightarrow>
          (let system_prompt = user_prepend cfg @ ''system'' @ user_append cfg @ body
                 @ stop_sequence cfg @ line_separator cfg @ log_start cfg;
               used_tokens = tok system_prompt
           in if int used_tokens > token_limit then Inl SystemPromptExceeds
              else Inr (system_prompt, used_tokens)))"

definition summary_system_prompt ::
  "agent_config \<Rightarrow> (string \<Rightarrow> nat) \<Rightarrow> formatter \<Rightarrow> string \<Rightarrow> int \<Rightarrow> agent_error + (string \<times> nat)" where
  "summary_system_prompt cfg tok fmt date token_limit =
     system_prompt_of cfg tok fmt date [summary_role cfg, summary_objective cfg] token_limit"

definition proposal_system_prompt ::
  "agent_config \<Rightarrow> (string \<Rightarrow> nat) \<Rightarrow> formatter \<Rightarrow> string \<Rightarrow> int \<Rightarrow> agent_error + (string \<times> nat)" where
  "proposal_system_prompt cfg tok fmt date token_limit =
     system_prompt_of cfg tok fmt date [proposal_role cfg, proposal_objective cfg] token_limit"

section \<open>Agent: building the prompt and yielding the response\<close>

datatype PromptType = summary | proposal

text \<open>
  The \<open>for message in messages\<close> loop of \<open>build_prompt\<close>: the lines appended to
  \<open>chat_log_lines\<close>, in the order of appending (newest first), and \<open>used_tokens\<close> at the
  end. The \<open>break\<close> leaves every later (older) message out.
\<close>

fun chat_log_lines :: "agent_config \<Rightarrow> (string \<Rightarrow> nat) \<Rightarrow> int \<Rightarrow> nat \<Rightarrow> message list \<Rightarrow> string list \<times> nat" where
  "chat_log_lines cfg tok token_limit used_tokens [] = ([], used_tokens)"
| "chat_log_lines cfg tok token_limit used_tokens (m # ms) =
     (let line = chat_message cfg m;
          additional_tokens = tok line
      in if int (used_tokens + additional_tokens) > token_limit then ([], used_tokens)
         else (case chat_log_lines cfg tok token_limit (used_tokens + additional_tokens) ms of
                 (ls, u) \<Rightarrow> (line # ls, u)))"

definition build_prompt ::
  "agent_config \<Rightarrow> (string \<Rightarrow> nat) \<Rightarrow> formatter \<Rightarrow> string \<Rightarrow> message list \<Rightarrow> PromptType \<Rightarrow>
   agent_error + (string \<times> nat)" where
  "build_prompt cfg tok fmt date messages prompt_type =
     (let token_limit = max_prompt_tokens cfg
      in case (case prompt_type of
                 summary \<Rightarrow> summary_system_prompt cfg tok fmt date token_limit
               | proposal \<Rightarrow> proposal_system_prompt cfg tok fmt date token_limit) of
           Inl e \<Rightarrow> Inl e
         | Inr (system_prompt, system_prompt_tokens) \<Rightarrow>
             (case prompt_response cfg tok NoMessage []
                     (token_limit - int system_prompt_tokens) of
                Inl e \<Rightarrow> Inl e
              | Inr (cue, cue_tokens) \<Rightarrow>
                  (case chat_log_lines cfg tok token_limit
                          (system_prompt_tokens + cue_tokens) messages of
                     (ls, used_tokens) \<Rightarrow>
                       Inr (system_prompt @ concat (rev ls) @ cue, used_tokens))))"

text \<open>
  How a drive of the generator \<open>yield_response\<close> stands after a number of pulls: it
  ended, it raised, or it is suspended at a \<open>yield\<close> with more rounds to come.
\<close>

datatype stream_end = Finished | Raised agent_error | Running

text \<open>
  The \<open>while completion_try < max_completion_tries\<close> loop, driven for at most \<open>pulls\<close>
  rounds. The source assigns \<open>completion_try = 0\<close> before the loop and nowhere else, so
  the recursive call passes it on unchanged.
\<close>

fun rounds ::
  "nat \<Rightarrow> agent_config \<Rightarrow> backend \<Rightarrow> (string \<Rightarrow> nat) \<Rightarrow> int \<Rightarrow> int \<Rightarrow> string \<Rightarrow> agent_state \<Rightarrow>
   ((string \<times> bool) list \<times> stream_end) \<times> agent_state" where
  "rounds 0 cfg be tok conversation_id completion_try prompt st = (([], Running), st)"
| "rounds (Suc n) cfg be tok conversation_id completion_try prompt st =
     (if completion_try < max_completion_tries cfg then
        (case complete cfg be tok prompt conversation_id st of
           (Inl e, st') \<Rightarrow> (([], Raised e), st')
         | (Inr (completion, used_tokens, stopped), st') \<Rightarrow>
             (if stopped then (([(completion, stopped)], Finished), st')
              else (case rounds n cfg be tok conversation_id completion_try
                           (prompt @ completion) st' of
                      ((chunks, e), st'') \<Rightarrow> (((completion, stopped) # chunks, e), st''))))
      else (([], Finished), st))"

definition yield_response ::
  "nat \<Rightarrow> agent_config \<Rightarrow> backend \<Rightarrow> (string \<Rightarrow> nat) \<Rightarrow> formatter \<Rightarrow> string \<Rightarrow>
   message list \<Rightarrow> int \<Rightarrow> PromptType \<Rightarrow> agent_state \<Rightarrow>
   ((string \<times> bool) list \<times> stream_end) \<times> agent_state" where
  "yield_response pulls cfg be tok fmt date messages conversation_id prompt_type st =
     (case build_prompt cfg tok fmt date messages prompt_type of
        Inl e \<Rightarrow> (([], Raised e), st)
      | Inr (prompt, used_tokens) \<Rightarrow> rounds pulls cfg be tok conversation_id 0 prompt st)"

section \<open>Database rows\<close>

text \<open>
  \<open>database.py\<close>: the tables as lists of rows, in the order of insertion. The clock
  (\<open>datetime.datetime.now()\<close>) is the parameter \<open>now\<close> of each operation.
\<close>

datatype ConversationState = CActive | CInactive | CComplete | CCancelled

datatype SummaryState = SPending | SComplete | SFailed

text \<open>
  What the attribute \<open>Summary.state\<close> holds: \<open>Summary.create\<close> assigns a member of the
  enumeration, \<open>Summary.mark\<close> assigns the string \<open>str(state)\<close>.
\<close>

datatype state_value = Member SummaryState | Str string

record conversation =
  conv_id :: nat
  conv_chat_id :: int
  agenda :: string
  conv_state :: ConversationState
  ipfs_hash :: "string option"
  conv_created_at :: nat
  conv_updated_at :: nat

record message_row =
  msg_id :: int
  msg_conversation_id :: nat
  from_user_id :: int
  reply_to_message_id :: "int option"
  row_text :: "string option"
  timestamp :: nat

record summary_row =
  sum_id :: nat
  sum_conversation_id :: nat
  message_count :: nat
  sum_state :: state_value
  sum_text :: "string option"
  sum_created_at :: nat
  sum_updated_at :: nat

record database =
  chats :: "int list"
  conversations :: "conversation list"
  messages :: "message_row list"
  summaries :: "summary_row list"

datatype db_error = CannotSetActive | NoneHasNoAttribute | SummaryDoesNotExist

text \<open>
  A query's \<open>.scalars().first()\<close> is \<open>find\<close>; assigning to the attributes of the object it
  returned and flushing rewrites that one row.
\<close>

fun update_first :: "('a \<Rightarrow> bool) \<Rightarrow> ('a \<Rightarrow> 'a) \<Rightarrow> 'a list \<Rightarrow> 'a list" where
  "update_first P f [] = []"
| "update_first P f (x # xs) = (if P x then f x # xs else x # update_first P f xs)"

text \<open>An \<open>autoincrement\<close> key: one more than the largest key in the table.\<close>

definition next_id :: "nat list \<Rightarrow> nat" where
  "next_id ids = Suc (foldr max ids 0)"

section \<open>Conversation\<close>

definition Conversation_active :: "database \<Rightarrow> int \<Rightarrow> conversation option" where
  "Conversation_active db chat_id =
     find (\<lambda>c. conv_chat_id c = chat_id \<and> conv_state c = CActive) (conversations db)"

definition Conversation_create ::
  "database \<Rightarrow> nat \<Rightarrow> int \<Rightarrow> string \<Rightarrow> conversation option \<times> database" where
  "Conversation_create db now chat_id agenda_text =
     (case Conversation_active db chat_id of
        Some active_conversation \<Rightarrow> (None, db)
      | None \<Rightarrow>
          (let new_conversation =
                 \<lparr>conv_id = next_id (map conv_id (conversations db)),
                  conv_chat_id = chat_id,
                  agenda = agenda_text,
                  conv_state = CActive,
                  ipfs_hash = None,
                  conv_created_at = now,
                  conv_updated_at = now\<rparr>
           in (Some new_conversation,
               db\<lparr>conversations := conversations db @ [new_conversation]\<rparr>)))"

definition Conversation_read :: "database \<Rightarrow> int \<Rightarrow> nat \<Rightarrow> conversation option" where
  "Conversation_read db chat_id conversation_id =
     find (\<lambda>c. conv_id c = conversation_id \<and> conv_chat_id c = chat_id) (conversations db)"

definition Conversation_enter ::
  "database \<Rightarrow> nat \<Rightarrow> int \<Rightarrow> nat \<Rightarrow> conversation option \<times> database" where
  "Conversation_enter db now chat_id conversation_id =
     (case Conversation_read db chat_id conversation_id of
        None \<Rightarrow> (None, db)
      | Some c \<Rightarrow>
          (let upd = (\<lambda>x. x\<lparr>conv_state := CActive, conv_updated_at := now\<rparr>)
           in (Some (upd c),
               db\<lparr>conversations :=
                    update_first (\<lambda>x. conv_id x = conversation_id \<and> conv_chat_id x = chat_id)
                      upd (conversations db)\<rparr>)))"

definition Conversation_update_state ::
  "database \<Rightarrow> nat \<Rightarrow> int \<Rightarrow> ConversationState \<Rightarrow> db_error + (conversation option \<times> database)" where
  "Conversation_update_state db now chat_id new_state =
     (if new_state = CActive then Inl CannotSetActive
      else
        (case Conversation_active db chat_id of
           None \<Rightarrow> Inr (None, db)
         | Some c \<Rightarrow>
             (let upd = (\<lambda>x. x\<lparr>conv_state := new_state, conv_updated_at := now\<rparr>)
              in Inr (Some (upd c),
                      db\<lparr>conversations :=
                           update_first (\<lambda>x. conv_chat_id x = chat_id \<and> conv_state x = CActive)
                             upd (conversations db)\<rparr>))))"

text \<open>
  \<open>Conversation.set_ipfs_hash\<close>: the query filters on the id and on the state
  \<open>complete\<close>; when no row matches, \<open>conversation\<close> is \<open>None\<close> and the assignment to
  \<open>conversation.ipfs_hash\<close> raises.
\<close>

definition Conversation_set_ipfs_hash ::
  "database \<Rightarrow> nat \<Rightarrow> nat \<Rightarrow> string \<Rightarrow> db_error + (conversation \<times> database)" where
  "Conversation_set_ipfs_hash db now conversation_id new_hash =
     (case find (\<lambda>c. conv_id c = conversation_id \<and> conv_state c = CComplete) (conversations db) of
        None \<Rightarrow> Inl NoneHasNoAttribute
      | Some c \<Rightarrow>
          (let upd = (\<lambda>x. x\<lparr>ipfs_hash := Some new_hash, conv_updated_at := now\<rparr>)
           in Inr (upd c,
                   db\<lparr>conversations :=
                        update_first (\<lambda>x. conv_id x = conversation_id \<and> conv_state x = CComplete)
                          upd (conversations db)\<rparr>)))"

section \<open>Message and Summary\<close>

text \<open>
  \<open>Message.read_all\<close>: \<open>if limit:\<close> skips the \<open>LIMIT\<close> clause for \<open>None\<close> and for \<open>0\<close>. The
  statement is \<open>SELECT ... WHERE conversation_id = ? ORDER BY timestamp DESC LIMIT ?\<close>
  whatever the order of the two builder calls. The engine is SQLite
  (\<open>AsyncDatabase.__init__\<close>), where a negative \<open>LIMIT\<close> is no bound. Rows of equal
  timestamp keep their order of insertion.
\<close>

definition Message_read_all :: "database \<Rightarrow> nat \<Rightarrow> int option \<Rightarrow> message_row list" where
  "Message_read_all db conversation_id limit =
     (let rows = sort_key (\<lambda>m. - int (timestamp m))
                   (filter (\<lambda>m. msg_conversation_id m = conversation_id) (messages db))
      in case limit of
           None \<Rightarrow> rows
         | Some n \<Rightarrow> (if n = 0 then rows else if n < 0 then rows else take (nat n) rows))"

text \<open>
  \<open>Summary.create\<close>: the count is \<open>select(func.count()).select_from(Message)\<close>, with no
  filter.
\<close>

definition Summary_create :: "database \<Rightarrow> nat \<Rightarrow> nat \<Rightarrow> summary_row \<times> database" where
  "Summary_create db now conversation_id =
     (let new_summary =
            \<lparr>sum_id = next_id (map sum_id (summaries db)),
             sum_conversation_id = conversation_id,
             message_count = length (messages db),
             sum_state = Member SPending,
             sum_text = None,
             sum_created_at = now,
             sum_updated_at = now\<rparr>
      in (new_summary, db\<lparr>summaries := summaries db @ [new_summary]\<rparr>))"

text \<open>Python's \<open>str\<close> of a member of a plain \<open>Enum\<close>: the class name, a dot, the member name.\<close>

fun str_SummaryState :: "SummaryState \<Rightarrow> string" where
  "str_SummaryState SPending = ''SummaryState.pending''"
| "str_SummaryState SComplete = ''SummaryState.complete''"
| "str_SummaryState SFailed = ''SummaryState.failed''"

definition Summary_mark ::
  "database \<Rightarrow> nat \<Rightarrow> nat \<Rightarrow> string \<Rightarrow> SummaryState \<Rightarrow> db_error + database" where
  "Summary_mark db now summary_id new_text new_state =
     (case find (\<lambda>s. sum_id s = summary_id) (summaries db) of
        None \<Rightarrow> Inl SummaryDoesNotExist
      | Some s \<Rightarrow>
          Inr (db\<lparr>summaries :=
                    update_first (\<lambda>x. sum_id x = summary_id)
                      (\<lambda>x. x\<lparr>sum_text := Some new_text,
                              sum_state := Str (str_SummaryState new_state),
                              sum_updated_at := now\<rparr>)
                      (summaries db)\<rparr>))"

section \<open>The command handlers of the bot\<close>

text \<open>
  \<open>bot.py\<close>: what each conversation command does to the database inside its transaction,
  and which reply it sends. An exception rolls the transaction back.
\<close>

datatype command =
    New int string
  | Enter int nat
  | Exit int
  | Cancel int
  | CompleteCmd int
  | Push int nat string

datatype bot_reply =
    ChatNotSetUp
  | AlreadyActive
  | Started nat
  | DoesNotExist
  | Entered nat
  | NoActiveConversation
  | StateUpdated nat
  | NotComplete
  | AlreadyPushed string
  | Pushed string
  | UnknownError

definition new_command_handler :: "database \<Rightarrow> nat \<Rightarrow> int \<Rightarrow> string \<Rightarrow> bot_reply \<times> database" where
  "new_command_handler db now chat_id agenda_text =
     (if chat_id \<notin> set (chats db) then (ChatNotSetUp, db)
      else (case Conversation_create db now chat_id agenda_text of
              (None, db') \<Rightarrow> (AlreadyActive, db)
            | (Some c, db') \<Rightarrow> (Started (conv_id c), db')))"

definition enter_command_handler :: "database \<Rightarrow> nat \<Rightarrow> int \<Rightarrow> nat \<Rightarrow> bot_reply \<times> database" where
  "enter_command_handler db now chat_id conversation_id =
     (if chat_id \<notin> set (chats db) then (ChatNotSetUp, db)
      else (case Conversation_active db chat_id of
              Some active_conversation \<Rightarrow> (AlreadyActive, db)
            | None \<Rightarrow>
                (case Conversation_enter db now chat_id conversation_id of
                   (None, db') \<Rightarrow> (DoesNotExist, db)
                 | (Some c, db') \<Rightarrow> (Entered (conv_id c), db'))))"

text \<open>\<open>exit_command_handler\<close>, \<open>cancel_command_handler\<close> and \<open>complete_command_handler\<close>
  differ in the state they pass to \<open>Conversation.update_state\<close>.\<close>

definition update_command_handler ::
  "database \<Rightarrow> nat \<Rightarrow> int \<Rightarrow> ConversationState \<Rightarrow> bot_reply \<times> database" where
  "update_command_handler db now chat_id new_state =
     (if chat_id \<notin> set (chats db) then (ChatNotSetUp, db)
      else (case Conversation_update_state db now chat_id new_state of
              Inl e \<Rightarrow> (UnknownError, db)
            | Inr (None, db') \<Rightarrow> (NoActiveConversation, db)
            | Inr (Some c, db') \<Rightarrow> (StateUpdated (conv_id c), db')))"

text \<open>
  \<open>push_command_handler\<close>; \<open>new_hash\<close> is what \<open>IPFS.add_str\<close> returned for the
  transcript.
\<close>

definition push_command_handler ::
  "database \<Rightarrow> nat \<Rightarrow> int \<Rightarrow> nat \<Rightarrow> string \<Rightarrow> bot_reply \<times> database" where
  "push_command_handler db now chat_id conversation_id new_hash =
     (if chat_id \<notin> set (chats db) then (ChatNotSetUp, db)
      else (case Conversation_read db chat_id conversation_id of
              None \<Rightarrow> (DoesNotExist, db)
            | Some c \<Rightarrow>
                (if conv_state c \<noteq> CComplete then (NotComplete, db)
                 else (case ipfs_hash c of
                         Some h \<Rightarrow> (AlreadyPushed h, db)
                       | None \<Rightarrow>
                           (case Conversation_set_ipfs_hash db now (conv_id c) new_hash of
                              Inl e \<Rightarrow> (UnknownError, db)
                            | Inr (c', db') \<Rightarrow> (Pushed new_hash, db'))))))"

fun handle :: "database \<Rightarrow> nat \<Rightarrow> command \<Rightarrow> bot_reply \<times> database" where
  "handle db now (New chat_id agenda_text) = new_command_handler db now chat_id agenda_text"
| "handle db now (Enter chat_id conversation_id) = enter_command_handler db now chat_id conversation_id"
| "handle db now (Exit chat_id) = update_command_handler db now chat_id CInactive"
| "handle db now (Cancel chat_id) = update_command_handler db now chat_id CCancelled"
| "handle db now (CompleteCmd chat_id) = update_command_handler db now chat_id CComplete"
| "handle db now (Push chat_id conversation_id new_hash) =
     push_command_handler db now chat_id conversation_id new_hash"

text \<open>The invariant: no chat that has a conversation has more than one in state
  \<open>active\<close>.\<close>

definition active_count :: "database \<Rightarrow> int \<Rightarrow> nat" where
  "active_count db chat_id =
     length (filter (\<lambda>c. conv_chat_id c = chat_id \<and> conv_state c = CActive) (conversations db))"

definition single_active :: "database \<Rightarrow> bool" where
  "single_active db = (\<forall>c \<in> set (conversations db). active_count db (conv_chat_id c) \<le> 1)"

section \<open>Derived descriptions used in the statements\<close>

text \<open>
  The slot id and the state after one attempt of the retry loop: the bindings
  \<open>slot'\<close> and \<open>st2\<close> of \<open>complete_loop\<close>, as one function.
\<close>

definition after_attempt :: "int \<Rightarrow> session \<Rightarrow> int \<Rightarrow> reply \<Rightarrow> agent_state \<Rightarrow> int \<times> agent_state" where
  "after_attempt c sess slot r st =
     (case reply_slot slot r of
        None \<Rightarrow> (slot, st\<lparr>posts := Suc (posts st)\<rparr>)
      | Some s \<Rightarrow> (s, store_slot c sess s (st\<lparr>posts := Suc (posts st)\<rparr>)))"

text \<open>The local \<open>slot_id\<close> of \<open>Agent.complete\<close> after a sequence of replies.\<close>

definition slot_after :: "int \<Rightarrow> reply list \<Rightarrow> int" where
  "slot_after slot rs = foldl (\<lambda>s r. case reply_slot s r of None \<Rightarrow> s | Some s' \<Rightarrow> s') slot rs"

text \<open>
  The response cue: what \<open>prompt_response(message=None)\<close> renders with the default
  empty \<open>text\<close>.
\<close>

definition response_cue :: "agent_config \<Rightarrow> string" where
  "response_cue cfg = user_prepend cfg @ persona_name cfg @ user_append cfg"

text \<open>The \<open>match prompt_type\<close> of \<open>build_prompt\<close>.\<close>

definition system_prompt_for ::
  "agent_config \<Rightarrow> (string \<Rightarrow> nat) \<Rightarrow> formatter \<Rightarrow> string \<Rightarrow> PromptType \<Rightarrow> int \<Rightarrow> agent_error + (string \<times> nat)" where
  "system_prompt_for cfg tok fmt date prompt_type token_limit =
     (case prompt_type of
        summary \<Rightarrow> summary_system_prompt cfg tok fmt date token_limit
      | proposal \<Rightarrow> proposal_system_prompt cfg tok fmt date token_limit)"

text \<open>
  The text of the system prompt (line 145 of \<open>prompt_manager.py\<close>), before it is
  measured; \<open>None\<close> when formatting a template raises.
\<close>

definition rendered_system_prompt ::
  "agent_config \<Rightarrow> formatter \<Rightarrow> string \<Rightarrow> PromptType \<Rightarrow> string option" where
  "rendered_system_prompt cfg fmt date prompt_type =
     (case render_schema fmt (persona_name cfg) date
             (case prompt_type of
                summary \<Rightarrow> [summary_role cfg, summary_objective cfg]
              | proposal \<Rightarrow> [proposal_role cfg, proposal_objective cfg]) of
        None \<Rightarrow> None
      | Some body \<Rightarrow>
          Some (user_prepend cfg @ ''system'' @ user_append cfg @ body
                  @ stop_sequence cfg @ line_separator cfg @ log_start cfg))"

section \<open>Concrete inputs\<close>

text \<open>A configuration, the state of a new \<open>Agent\<close>, and three backends.\<close>

definition example_config :: agent_config where
  "example_config =
     \<lparr>model_engine = ''llamacpp'', max_completion_tokens = 256, max_prompt_tokens = 3,
      max_completion_tries = 2, user_prepend = ''<'', user_append = ''>'', log_start = ''#'',
      stop_sequence = '';'', line_separator = ''/'', persona_name = ''bot'',
      summary_role = ''R'', summary_objective = ''O'',
      proposal_role = ''R'', proposal_objective = ''P''\<rparr>"

definition initial_state :: agent_state where
  "initial_state = \<lparr>model_conversation_slots = Map.empty, sessions_opened = 0, posts = 0\<rparr>"

definition final_response :: response_data where
  "final_response =
     \<lparr>id_slot = Some 4, slot_id = Some 9, stopped_eos = Some False, stopped_word = Some True,
      content = Some ''ok''\<rparr>"

text \<open>A 503 on the first request, then a complete answer.\<close>

definition fails_once :: backend where
  "fails_once i req = (if i = 0 then Reply 503 None else Reply 200 (Some final_response))"

text \<open>A 503 on the first request, then connection resets.\<close>

definition always_fails :: backend where
  "always_fails i req = (if i = 0 then Reply 503 None else TransportError ''reset'')"

text \<open>A backend that answers every request and never reports a stop.\<close>

definition never_stops :: backend where
  "never_stops i req =
     Reply 200 (Some \<lparr>id_slot = None, slot_id = None, stopped_eos = Some False,
                      stopped_word = Some False, content = Some ''more''\<rparr>)"

text \<open>Two messages, newest first.\<close>

definition ann_says_hi :: message where
  "ann_says_hi =
     Message \<lparr>username = Some ''ann'', first_name = None, last_name = None\<rparr> None (Some ''hi'')"

definition bo_says_yo :: message where
  "bo_says_yo =
     Message \<lparr>username = None, first_name = Some ''Bo'', last_name = None\<rparr> None (Some ''yo'')"

text \<open>
  A chat with an active and an inactive conversation, the second complete and already
  pushed in \<open>pushed_db\<close>; two messages, both of conversation 2; one pending summary.
\<close>

definition conversation1 :: conversation where
  "conversation1 =
     \<lparr>conv_id = 1, conv_chat_id = 7, agenda = ''vote on budget'', conv_state = CActive,
      ipfs_hash = None, conv_created_at = 0, conv_updated_at = 0\<rparr>"

definition conversation2 :: conversation where
  "conversation2 =
     \<lparr>conv_id = 2, conv_chat_id = 7, agenda = ''elect a treasurer'', conv_state = CInactive,
      ipfs_hash = None, conv_created_at = 1, conv_updated_at = 2\<rparr>"

definition message1 :: message_row where
  "message1 =
     \<lparr>msg_id = 11, msg_conversation_id = 2, from_user_id = 100, reply_to_message_id = None,
      row_text = Some ''hi'', timestamp = 3\<rparr>"

definition message2 :: message_row where
  "message2 =
     \<lparr>msg_id = 12, msg_conversation_id = 2, from_user_id = 101, reply_to_message_id = Some 11,
      row_text = Some ''yo'', timestamp = 4\<rparr>"

definition summary1 :: summary_row where
  "summary1 =
     \<lparr>sum_id = 1, sum_conversation_id = 1, message_count = 0, sum_state = Member SPending,
      sum_text = None, sum_created_at = 5, sum_updated_at = 5\<rparr>"

definition example_db :: database where
  "example_db =
     \<lparr>chats = [7], conversations = [conversation1, conversation2],
      messages = [message1, message2], summaries = [summary1]\<rparr>"

definition pushed_db :: database where
  "pushed_db =
     \<lparr>chats = [7],
      conversations = [conversation2\<lparr>conv_state := CComplete, ipfs_hash := Some ''Qm1''\<rparr>],
      messages = [message1, message2], summaries = []\<rparr>"

section \<open>The retry loop of Agent.complete\<close>

declare complete_loop.simps [simp del]

lemma posts_store_slot: "posts (store_slot c s i st) = posts st"
  by (simp add: store_slot_def)

lemma posts_after_attempt: "posts (snd (after_attempt c sess slot r st)) = Suc (posts st)"
  by (simp add: after_attempt_def posts_store_slot split: option.splits)

lemma complete_loop_Inl:
  assumes "reply_result tok (be (posts st) params) = Inl e"
    and "int tries < max_completion_tries cfg"
  shows "complete_loop cfg be tok c sess params tries errors slot st =
     complete_loop cfg be tok c sess params (Suc tries) (errors @ [e])
       (fst (after_attempt c sess slot (be (posts st) params) st))
       (snd (after_attempt c sess slot (be (posts st) params) st))"
  using assms
  by (subst complete_loop.simps) (simp add: Let_def after_attempt_def split: option.splits)

lemma complete_loop_Inr:
  assumes "reply_result tok (be (posts st) params) = Inr res"
    and "int tries < max_completion_tries cfg"
  shows "complete_loop cfg be tok c sess params tries errors slot st =
     (Inr res, snd (after_attempt c sess slot (be (posts st) params) st))"
  using assms
  by (subst complete_loop.simps) (simp add: Let_def after_attempt_def split: option.splits)

lemma complete_loop_succeeds:
  assumes "\<forall>i<j. isl (reply_result tok (be (posts st + i) params))"
    and "reply_result tok (be (posts st + j) params) = Inr res"
    and "int (tries + j) < max_completion_tries cfg"
  shows "fst (complete_loop cfg be tok c sess params tries errors slot st) = Inr res \<and>
         posts (snd (complete_loop cfg be tok c sess params tries errors slot st)) = posts st + Suc j"
  using assms
proof (induction j arbitrary: tries errors slot st)
  case 0
  then show ?case
    by (simp add: complete_loop_Inr posts_after_attempt)
next
  case (Suc j)
  let ?st' = "snd (after_attempt c sess slot (be (posts st) params) st)"
  let ?slot' = "fst (after_attempt c sess slot (be (posts st) params) st)"
  from Suc.prems(1) have "isl (reply_result tok (be (posts st) params))"
    by (metis add.right_neutral zero_less_Suc)
  then obtain e where r0: "reply_result tok (be (posts st) params) = Inl e"
    by (auto simp: isl_def)
  from Suc.prems(3) have lt: "int tries < max_completion_tries cfg" by simp
  have p: "posts ?st' = Suc (posts st)" by (rule posts_after_attempt)
  have step: "complete_loop cfg be tok c sess params tries errors slot st =
     complete_loop cfg be tok c sess params (Suc tries) (errors @ [e]) ?slot' ?st'"
    using r0 lt by (rule complete_loop_Inl)
  have a: "\<forall>i<j. isl (reply_result tok (be (posts ?st' + i) params))"
    using Suc.prems(1) unfolding p by (metis Suc_less_eq add_Suc_shift)
  have b: "reply_result tok (be (posts ?st' + j) params) = Inr res"
    using Suc.prems(2) unfolding p by simp
  have c: "int (Suc tries + j) < max_completion_tries cfg"
    using Suc.prems(3) by simp
  have "fst (complete_loop cfg be tok c sess params (Suc tries) (errors @ [e]) ?slot' ?st') = Inr res \<and>
        posts (snd (complete_loop cfg be tok c sess params (Suc tries) (errors @ [e]) ?slot' ?st'))
          = posts ?st' + Suc j"
    using a b c by (rule Suc.IH)
  then show ?case
    unfolding step p by simp
qed

lemma complete_loop_exhausts:
  assumes "\<forall>i<k. reply_result tok (be (posts st + i) params) = Inl (e (tries + i))"
    and "max_completion_tries cfg = int (tries + k)"
  shows "fst (complete_loop cfg be tok c sess params tries errors slot st)
           = Inl (CompletionFailed (errors @ map e [tries..<tries + k])) \<and>
         posts (snd (complete_loop cfg be tok c sess params tries errors slot st)) = posts st + k"
  using assms
proof (induction k arbitrary: tries errors slot st)
  case 0
  then show ?case
    by (simp add: complete_loop.simps [of cfg be tok c sess params tries errors slot st])
next
  case (Suc k)
  let ?st' = "snd (after_attempt c sess slot (be (posts st) params) st)"
  let ?slot' = "fst (after_attempt c sess slot (be (posts st) params) st)"
  from Suc.prems(1) have r0: "reply_result tok (be (posts st) params) = Inl (e tries)"
    by (metis add.right_neutral zero_less_Suc)
  from Suc.prems(2) have lt: "int tries < max_completion_tries cfg" by simp
  have p: "posts ?st' = Suc (posts st)" by (rule posts_after_attempt)
  have step: "complete_loop cfg be tok c sess params tries errors slot st =
     complete_loop cfg be tok c sess params (Suc tries) (errors @ [e tries]) ?slot' ?st'"
    using r0 lt by (rule complete_loop_Inl)
  have a: "\<forall>i<k. reply_result tok (be (posts ?st' + i) params) = Inl (e (Suc tries + i))"
    using Suc.prems(1) unfolding p by (metis Suc_less_eq add_Suc_shift)
  have b: "max_completion_tries cfg = int (Suc tries + k)"
    using Suc.prems(2) by simp
  have m: "map e [tries..<tries + Suc k] = e tries # map e [Suc tries..<Suc tries + k]"
    by (simp add: upt_rec [of tries] del: upt_Suc)
  have "fst (complete_loop cfg be tok c sess params (Suc tries) (errors @ [e tries]) ?slot' ?st')
           = Inl (CompletionFailed ((errors @ [e tries]) @ map e [Suc tries..<Suc tries + k])) \<and>
        posts (snd (complete_loop cfg be tok c sess params (Suc tries) (errors @ [e tries]) ?slot' ?st'))
          = posts ?st' + k"
    using a b by (rule Suc.IH)
  then show ?case
    unfolding step p m by simp
qed

lemma posts_conversation_slot:
  "conversation_slot st c = (sess, slot, st0) \<Longrightarrow> posts st0 = posts st"
  by (auto simp: conversation_slot_def split: option.splits)

text \<open>
  Claim C6. With the engine supported and \<open>1 \<le> k \<le> max_completion_tries\<close>: when the
  first \<open>k - 1\<close> replies fail and the \<open>k\<close>-th succeeds, \<open>complete\<close> returns that success
  and has issued exactly \<open>k\<close> requests; when \<open>max_completion_tries = k\<close> and all \<open>k\<close> replies
  fail, \<open>complete\<close> raises the aggregate error that carries the \<open>k\<close> errors in order, and
  returns no text.
\<close>

theorem complete_retries:
  assumes "model_engine cfg = ''llamacpp''" and "1 \<le> k" and "int k \<le> max_completion_tries cfg"
  shows "((\<forall>i<k - 1. \<forall>req. isl (reply_result tok (be (posts st + i) req))) \<and>
          (\<forall>req. reply_result tok (be (posts st + (k - 1)) req) = Inr res)
          \<longrightarrow> fst (complete cfg be tok prompt c st) = Inr res \<and>
              posts (snd (complete cfg be tok prompt c st)) = posts st + k) \<and>
         (max_completion_tries cfg = int k \<and> length errs = k \<and>
          (\<forall>i<k. \<forall>req. reply_result tok (be (posts st + i) req) = Inl (errs ! i))
          \<longrightarrow> fst (complete cfg be tok prompt c st) = Inl (CompletionFailed errs) \<and>
              posts (snd (complete cfg be tok prompt c st)) = posts st + k)"
proof -
  obtain sess slot st0 where cs: "conversation_slot st c = (sess, slot, st0)"
    by (cases "conversation_slot st c") auto
  have p0: "posts st0 = posts st" using cs by (rule posts_conversation_slot)
  have eq: "complete cfg be tok prompt c st =
      complete_loop cfg be tok c sess (request_params prompt slot) 0 [] slot st0"
    using assms(1) cs by (simp add: complete_def)
  show ?thesis
  proof (intro conjI impI)
    assume h: "(\<forall>i<k - 1. \<forall>req. isl (reply_result tok (be (posts st + i) req))) \<and>
          (\<forall>req. reply_result tok (be (posts st + (k - 1)) req) = Inr res)"
    have a: "\<forall>i<k - 1. isl (reply_result tok (be (posts st0 + i) (request_params prompt slot)))"
      using h p0 by simp
    have b: "reply_result tok (be (posts st0 + (k - 1)) (request_params prompt slot)) = Inr res"
      using h p0 by simp
    have c: "int (0 + (k - 1)) < max_completion_tries cfg"
      using assms(2,3) by simp
    have "fst (complete_loop cfg be tok c sess (request_params prompt slot) 0 [] slot st0) = Inr res \<and>
         posts (snd (complete_loop cfg be tok c sess (request_params prompt slot) 0 [] slot st0))
           = posts st0 + Suc (k - 1)"
      using a b c by (rule complete_loop_succeeds)
    then show "fst (complete cfg be tok prompt c st) = Inr res"
      and "posts (snd (complete cfg be tok prompt c st)) = posts st + k"
      using assms(2) p0 by (simp_all add: eq)
  next
    assume h: "max_completion_tries cfg = int k \<and> length errs = k \<and>
          (\<forall>i<k. \<forall>req. reply_result tok (be (posts st + i) req) = Inl (errs ! i))"
    have a: "\<forall>i<k. reply_result tok (be (posts st0 + i) (request_params prompt slot))
               = Inl (((!) errs) (0 + i))"
      using h p0 by simp
    have b: "max_completion_tries cfg = int (0 + k)" using h by simp
    have "map ((!) errs) [0..<length errs] = errs" by (rule map_nth)
    then have m: "map ((!) errs) [0..<0 + k] = errs"
      using h by simp
    have "fst (complete_loop cfg be tok c sess (request_params prompt slot) 0 [] slot st0)
           = Inl (CompletionFailed ([] @ map ((!) errs) [0..<0 + k])) \<and>
         posts (snd (complete_loop cfg be tok c sess (request_params prompt slot) 0 [] slot st0))
           = posts st0 + k"
      using a b by (rule complete_loop_exhausts)
    then show "fst (complete cfg be tok prompt c st) = Inl (CompletionFailed errs)"
      and "posts (snd (complete cfg be tok prompt c st)) = posts st + k"
      using p0 m by (simp_all add: eq)
  qed
qed

theorem complete_retries_witness:
  "fst (complete example_config fails_once (\<lambda>s. 1) ''p'' 1 initial_state) = Inr (''ok'', 1, True) \<and>
   posts (snd (complete example_config fails_once (\<lambda>s. 1) ''p'' 1 initial_state)) = 2 \<and>
   fst (complete example_config always_fails (\<lambda>s. 1) ''p'' 1 initial_state)
     = Inl (CompletionFailed [Non200 503, Transport ''reset'']) \<and>
   posts (snd (complete example_config always_fails (\<lambda>s. 1) ''p'' 1 initial_state)) = 2"
proof -
  have e: "model_engine example_config = ''llamacpp''" by (simp add: example_config_def)
  have k: "(1::nat) \<le> 2" by simp
  have m: "int 2 \<le> max_completion_tries example_config" by (simp add: example_config_def)
  have a: "(\<forall>i<2 - 1. \<forall>req. isl (reply_result (\<lambda>s. 1) (fails_once (posts initial_state + i) req))) \<and>
          (\<forall>req. reply_result (\<lambda>s. 1) (fails_once (posts initial_state + (2 - 1)) req) = Inr (''ok'', 1, True))"
    by (simp add: fails_once_def initial_state_def final_response_def response_result_def)
  have b: "max_completion_tries example_config = int 2 \<and> length [Non200 503, Transport ''reset''] = 2 \<and>
          (\<forall>i<2. \<forall>req. reply_result (\<lambda>s. 1) (always_fails (posts initial_state + i) req)
              = Inl ([Non200 503, Transport ''reset''] ! i))"
    by (auto simp: always_fails_def initial_state_def example_config_def less_Suc_eq numeral_2_eq_2)
  from complete_retries [OF e k m, of "\<lambda>s. 1" fails_once initial_state "(''ok'', 1, True)" "''p''" 1]
       complete_retries [OF e k m, of "\<lambda>s. 1" always_fails initial_state _ "''p''" 1 "[Non200 503, Transport ''reset'']"]
       a b
  show ?thesis by (simp add: initial_state_def)
qed

section \<open>Slot affinity\<close>

lemma slot_after_Cons:
  "slot_after slot (r # rs) = slot_after (case reply_slot slot r of None \<Rightarrow> slot | Some s' \<Rightarrow> s') rs"
  by (simp add: slot_after_def)

lemma slot_after_snoc:
  "slot_after slot (rs @ [r]) =
     (case reply_slot (slot_after slot rs) r of None \<Rightarrow> slot_after slot rs | Some s' \<Rightarrow> s')"
  by (simp add: slot_after_def split: option.splits)

lemma fst_after_attempt:
  "fst (after_attempt c sess slot r st) = (case reply_slot slot r of None \<Rightarrow> slot | Some s' \<Rightarrow> s')"
  by (simp add: after_attempt_def split: option.splits)

lemma reply_result_Inr_body:
  "reply_result tok r = Inr res \<Longrightarrow> \<exists>d. r = Reply 200 (Some d)"
  by (cases r) (auto split: if_splits option.splits)

lemma after_attempt_stores:
  "reply_result tok r = Inr res \<Longrightarrow>
   model_conversation_slots (snd (after_attempt c sess slot r st)) c
     = Some (sess, fst (after_attempt c sess slot r st))"
  by (auto dest!: reply_result_Inr_body simp: after_attempt_def store_slot_def)

lemma complete_loop_slot:
  assumes "complete_loop cfg be tok c sess params tries errors slot st = (Inr res, st')"
  shows "posts st < posts st' \<and>
         reply_result tok (be (posts st' - 1) params) = Inr res \<and>
         model_conversation_slots st' c
           = Some (sess, slot_after slot (map (\<lambda>p. be p params) [posts st..<posts st']))"
  using assms
proof (induction "nat (max_completion_tries cfg - int tries)" arbitrary: tries errors slot st)
  case 0
  then show ?case
    by (simp add: complete_loop.simps [of cfg be tok c sess params tries errors slot st])
next
  case (Suc m)
  let ?r = "be (posts st) params"
  let ?st1 = "snd (after_attempt c sess slot ?r st)"
  let ?slot1 = "fst (after_attempt c sess slot ?r st)"
  have lt: "int tries < max_completion_tries cfg" using Suc.hyps(2) by simp
  have p: "posts ?st1 = Suc (posts st)" by (rule posts_after_attempt)
  show ?case
  proof (cases "reply_result tok ?r")
    case (Inr res')
    have "complete_loop cfg be tok c sess params tries errors slot st = (Inr res', ?st1)"
      using Inr lt by (rule complete_loop_Inr)
    with Suc.prems have e: "res' = res" "st' = ?st1" by simp_all
    have "model_conversation_slots ?st1 c = Some (sess, ?slot1)"
      using Inr by (rule after_attempt_stores)
    then show ?thesis
      using Inr e p by (simp add: slot_after_def fst_after_attempt)
  next
    case (Inl e)
    have step: "complete_loop cfg be tok c sess params tries errors slot st =
       complete_loop cfg be tok c sess params (Suc tries) (errors @ [e]) ?slot1 ?st1"
      using Inl lt by (rule complete_loop_Inl)
    have m: "m = nat (max_completion_tries cfg - int (Suc tries))"
      using Suc.hyps(2) by simp
    have r: "complete_loop cfg be tok c sess params (Suc tries) (errors @ [e]) ?slot1 ?st1 = (Inr res, st')"
      using Suc.prems step by simp
    have ih: "posts ?st1 < posts st' \<and>
         reply_result tok (be (posts st' - 1) params) = Inr res \<and>
         model_conversation_slots st' c
           = Some (sess, slot_after ?slot1 (map (\<lambda>p. be p params) [posts ?st1..<posts st']))"
      using m r by (rule Suc.hyps(1))
    have l: "[posts st..<posts st'] = posts st # [Suc (posts st)..<posts st']"
      using ih p by (simp add: upt_rec [of "posts st"] del: upt_Suc)
    show ?thesis
      using ih unfolding p l by (simp add: slot_after_Cons fst_after_attempt)
  qed
qed

lemma slot_after_unchanged:
  "\<forall>r \<in> set rs. \<forall>d. r = Reply 200 (Some d) \<longrightarrow> id_slot d = None \<and> slot_id d = None
   \<Longrightarrow> slot_after slot rs = slot"
proof (induction rs arbitrary: slot)
  case Nil
  then show ?case by (simp add: slot_after_def)
next
  case (Cons r rs)
  have "(case reply_slot slot r of None \<Rightarrow> slot | Some s' \<Rightarrow> s') = slot"
  proof (cases r)
    case (TransportError x)
    then show ?thesis by simp
  next
    case (Reply status body)
    with Cons.prems show ?thesis
      by (auto simp: response_slot_def split: option.splits)
  qed
  with Cons show ?case by (simp add: slot_after_Cons)
qed

lemma after_attempt_frame:
  "c' \<noteq> c \<Longrightarrow>
   model_conversation_slots (snd (after_attempt c sess slot r st)) c' = model_conversation_slots st c'"
  by (simp add: after_attempt_def store_slot_def split: option.splits)

lemma complete_loop_frame:
  assumes "c' \<noteq> c"
  shows "model_conversation_slots (snd (complete_loop cfg be tok c sess params tries errors slot st)) c'
           = model_conversation_slots st c'"
proof (induction "nat (max_completion_tries cfg - int tries)" arbitrary: tries errors slot st)
  case 0
  then show ?case
    by (simp add: complete_loop.simps [of cfg be tok c sess params tries errors slot st])
next
  case (Suc m)
  let ?r = "be (posts st) params"
  let ?st1 = "snd (after_attempt c sess slot ?r st)"
  let ?slot1 = "fst (after_attempt c sess slot ?r st)"
  have lt: "int tries < max_completion_tries cfg" using Suc.hyps(2) by simp
  have f1: "model_conversation_slots ?st1 c' = model_conversation_slots st c'"
    using assms by (rule after_attempt_frame)
  show ?case
  proof (cases "reply_result tok ?r")
    case (Inr res)
    have "complete_loop cfg be tok c sess params tries errors slot st = (Inr res, ?st1)"
      using Inr lt by (rule complete_loop_Inr)
    then show ?thesis using f1 by simp
  next
    case (Inl e)
    have step: "complete_loop cfg be tok c sess params tries errors slot st =
       complete_loop cfg be tok c sess params (Suc tries) (errors @ [e]) ?slot1 ?st1"
      using Inl lt by (rule complete_loop_Inl)
    have m: "m = nat (max_completion_tries cfg - int (Suc tries))"
      using Suc.hyps(2) by simp
    have "model_conversation_slots
            (snd (complete_loop cfg be tok c sess params (Suc tries) (errors @ [e]) ?slot1 ?st1)) c'
          = model_conversation_slots ?st1 c'"
      using m by (rule Suc.hyps(1))
    then show ?thesis unfolding step using f1 by simp
  qed
qed

text \<open>
  Claim C8. After any successful \<open>complete\<close>, whatever \<open>stopped\<close> is, the conversation has
  an entry in \<open>model_conversation_slots\<close>. Its session is the one stored for the
  conversation before the call, or a new one when nothing was stored. The reply that was
  returned is a 200 response, and the stored slot id is its \<open>id_slot\<close> when that key is
  present, else its \<open>slot_id\<close> when that one is. When no 200 response of the call carried
  either key, the stored slot id is the one stored before the call (\<open>-1\<close> when nothing was
  stored). The request carries the slot id stored before the call, and the entries of the
  other conversations are as they were.
\<close>

theorem slot_affinity:
  assumes "complete cfg be tok prompt c st = (Inr (txt, n, stopped), st')"
  shows "\<exists>sess prior slot' d.
     (case model_conversation_slots st c of
        Some (s0, i0) \<Rightarrow> sess = s0 \<and> prior = i0
      | None \<Rightarrow> sess = sessions_opened st \<and> prior = - 1) \<and>
     model_conversation_slots st' c = Some (sess, slot') \<and>
     be (posts st' - 1) (request_params prompt prior) = Reply 200 (Some d) \<and>
     (case id_slot d of
        Some i \<Rightarrow> slot' = i
      | None \<Rightarrow> (case slot_id d of Some j \<Rightarrow> slot' = j | None \<Rightarrow> True)) \<and>
     ((\<forall>p d'. posts st \<le> p \<and> p < posts st' \<and>
              be p (request_params prompt prior) = Reply 200 (Some d')
              \<longrightarrow> id_slot d' = None \<and> slot_id d' = None)
      \<longrightarrow> slot' = prior) \<and>
     (\<forall>c'. c' \<noteq> c \<longrightarrow> model_conversation_slots st' c' = model_conversation_slots st c')"
proof -
  obtain sess slot st0 where cs: "conversation_slot st c = (sess, slot, st0)"
    by (cases "conversation_slot st c") auto
  have pr: "case model_conversation_slots st c of
        Some (s0, i0) \<Rightarrow> sess = s0 \<and> slot = i0
      | None \<Rightarrow> sess = sessions_opened st \<and> slot = - 1"
    using cs by (auto simp: conversation_slot_def split: option.splits)
  have m0: "model_conversation_slots st0 = model_conversation_slots st"
    using cs by (auto simp: conversation_slot_def split: option.splits)
  let ?req = "request_params prompt slot"
  have p0: "posts st0 = posts st" using cs by (rule posts_conversation_slot)
  have eng: "model_engine cfg = ''llamacpp''"
    using assms cs by (auto simp: complete_def split: if_splits)
  have eq: "complete_loop cfg be tok c sess ?req 0 [] slot st0 = (Inr (txt, n, stopped), st')"
    using assms eng cs by (simp add: complete_def)
  let ?rs = "map (\<lambda>p. be p ?req) [posts st0..<posts st']"
  from complete_loop_slot [OF eq]
  have lt: "posts st0 < posts st'"
    and res: "reply_result tok (be (posts st' - 1) ?req) = Inr (txt, n, stopped)"
    and sl: "model_conversation_slots st' c = Some (sess, slot_after slot ?rs)"
    by simp_all
  from res obtain d where d: "be (posts st' - 1) ?req = Reply 200 (Some d)"
    by (blast dest: reply_result_Inr_body)
  have split: "[posts st0..<posts st'] = [posts st0..<posts st' - 1] @ [posts st' - 1]"
    using lt by (cases "posts st'") simp_all
  have last: "slot_after slot ?rs
      = response_slot (slot_after slot (map (\<lambda>p. be p ?req) [posts st0..<posts st' - 1])) d"
    unfolding split using d by (simp add: slot_after_snoc)
  have a: "case id_slot d of
        Some i \<Rightarrow> slot_after slot ?rs = i
      | None \<Rightarrow> (case slot_id d of Some j \<Rightarrow> slot_after slot ?rs = j | None \<Rightarrow> True)"
    unfolding last by (simp add: response_slot_def split: option.splits)
  have b: "(\<forall>p d'. posts st \<le> p \<and> p < posts st' \<and> be p ?req = Reply 200 (Some d')
              \<longrightarrow> id_slot d' = None \<and> slot_id d' = None)
      \<longrightarrow> slot_after slot ?rs = slot"
  proof
    assume h: "\<forall>p d'. posts st \<le> p \<and> p < posts st' \<and> be p ?req = Reply 200 (Some d')
              \<longrightarrow> id_slot d' = None \<and> slot_id d' = None"
    have "\<forall>r \<in> set ?rs. \<forall>d. r = Reply 200 (Some d) \<longrightarrow> id_slot d = None \<and> slot_id d = None"
      using h p0 by auto
    then show "slot_after slot ?rs = slot" by (rule slot_after_unchanged)
  qed
  have f: "\<forall>c'. c' \<noteq> c \<longrightarrow> model_conversation_slots st' c' = model_conversation_slots st c'"
  proof (intro allI impI)
    fix c' :: int assume ne: "c' \<noteq> c"
    have "model_conversation_slots
            (snd (complete_loop cfg be tok c sess ?req 0 [] slot st0)) c'
          = model_conversation_slots st0 c'"
      using ne by (rule complete_loop_frame)
    then show "model_conversation_slots st' c' = model_conversation_slots st c'"
      by (simp add: eq m0)
  qed
  show ?thesis
    using pr sl d a b f
    by (intro exI [of _ sess] exI [of _ slot] exI [of _ "slot_after slot ?rs"] exI [of _ d]) simp
qed

text \<open>
  Two calls in a row for conversation 1. The first, on a 503 and then an answer with both
  keys, opens session 0 and stores slot 4, the \<open>id_slot\<close>, not 9, the \<open>slot_id\<close>. The
  second, on an answer with neither key and no stop, keeps session 0 and slot 4.
\<close>

theorem slot_affinity_witness:
  "complete example_config fails_once (\<lambda>s. 1) ''p'' 1 initial_state
     = (Inr (''ok'', 1, True),
        \<lparr>model_conversation_slots = [1 \<mapsto> (0, 4)], sessions_opened = 1, posts = 2\<rparr>) \<and>
   id_slot final_response = Some 4 \<and> slot_id final_response = Some 9 \<and>
   complete example_config never_stops (\<lambda>s. 1) ''q'' 1
       \<lparr>model_conversation_slots = [1 \<mapsto> (0, 4)], sessions_opened = 1, posts = 2\<rparr>
     = (Inr (''more'', 1, False),
        \<lparr>model_conversation_slots = [1 \<mapsto> (0, 4)], sessions_opened = 1, posts = 3\<rparr>)"
proof -
  let ?st1 = "\<lparr>model_conversation_slots = [1 \<mapsto> (0, 4)], sessions_opened = 1, posts = 2\<rparr>"
  let ?st2 = "\<lparr>model_conversation_slots = [1 \<mapsto> (0, 4)], sessions_opened = 1, posts = 3\<rparr>"
  have h: "complete example_config fails_once (\<lambda>s. 1) ''p'' 1 initial_state
     = (Inr (''ok'', 1, True), ?st1)"
    by (simp add: complete_def conversation_slot_def complete_loop.simps example_config_def
        initial_state_def fails_once_def final_response_def response_result_def
        response_slot_def store_slot_def request_params_def Let_def)
  have g: "complete example_config never_stops (\<lambda>s. 1) ''q'' 1 ?st1
     = (Inr (''more'', 1, False), ?st2)"
    by (simp add: complete_def conversation_slot_def complete_loop.simps example_config_def
        never_stops_def response_result_def
        response_slot_def store_slot_def request_params_def Let_def)
  from slot_affinity [OF h] slot_affinity [OF g] h g show ?thesis
    by (simp add: final_response_def)
qed

section \<open>The token budget of build-prompt\<close>

lemma chat_log_lines_prefix:
  assumes "chat_log_lines cfg tok L u ms = (ls, u')"
  shows "\<exists>n\<le>length ms.
           ls = map (chat_message cfg) (take n ms) \<and>
           u' = u + sum_list (map tok ls) \<and>
           (int u \<le> L \<longrightarrow> int u' \<le> L) \<and>
           (n < length ms \<longrightarrow> L < int (u' + tok (chat_message cfg (ms ! n))))"
  using assms
proof (induction ms arbitrary: u ls u')
  case Nil
  then show ?case by simp
next
  case (Cons m ms)
  let ?line = "chat_message cfg m"
  show ?case
  proof (cases "L < int (u + tok ?line)")
    case True
    with Cons.prems have "ls = []" "u' = u" by (simp_all add: Let_def)
    with True show ?thesis by (intro exI [of _ 0]) simp
  next
    case False
    obtain ls1 u1 where r: "chat_log_lines cfg tok L (u + tok ?line) ms = (ls1, u1)"
      by (cases "chat_log_lines cfg tok L (u + tok ?line) ms") auto
    with False Cons.prems have e: "ls = ?line # ls1" "u' = u1" by (simp_all add: Let_def)
    from Cons.IH [OF r] obtain n where n: "n \<le> length ms"
      "ls1 = map (chat_message cfg) (take n ms)"
      "u1 = u + tok ?line + sum_list (map tok ls1)"
      "int (u + tok ?line) \<le> L \<longrightarrow> int u1 \<le> L"
      "n < length ms \<longrightarrow> L < int (u1 + tok (chat_message cfg (ms ! n)))"
      by blast
    show ?thesis
      using n e False by (intro exI [of _ "Suc n"]) simp
  qed
qed

lemma system_prompt_for_Inr:
  "system_prompt_for cfg tok fmt date pt L = Inr (sp, n) \<Longrightarrow> n = tok sp \<and> int n \<le> L"
  by (auto simp: system_prompt_for_def summary_system_prompt_def proposal_system_prompt_def
      system_prompt_of_def Let_def split: PromptType.splits option.splits if_splits)

lemma prompt_response_cue:
  "prompt_response cfg tok NoMessage [] L = Inr (cue, n) \<Longrightarrow>
     cue = response_cue cfg \<and> n = tok cue \<and> (L = -1 \<or> int n \<le> L)"
  by (auto simp: prompt_response_def response_cue_def Let_def split: if_splits)

text \<open>
  Claim C7. Whenever \<open>build_prompt\<close> returns, \<open>used_tokens\<close> is at most
  \<open>max_prompt_tokens\<close>; the prompt is the system prompt, then the lines of the \<open>n\<close> most
  recent messages in chronological order, then the response cue, for some \<open>n\<close>;
  \<open>used_tokens\<close> is the sum of their token counts; and when an older message is left
  out, the first one left out would have exceeded the limit.
\<close>

theorem build_prompt_within_budget:
  assumes "build_prompt cfg tok fmt date msgs prompt_type = Inr (prompt, used_tokens)"
  shows "int used_tokens \<le> max_prompt_tokens cfg \<and>
         (\<exists>n system_prompt.
            n \<le> length msgs \<and>
            system_prompt_for cfg tok fmt date prompt_type (max_prompt_tokens cfg)
              = Inr (system_prompt, tok system_prompt) \<and>
            prompt = system_prompt
                       @ concat (rev (map (chat_message cfg) (take n msgs)))
                       @ response_cue cfg \<and>
            used_tokens = tok system_prompt + tok (response_cue cfg)
                            + sum_list (map (tok \<circ> chat_message cfg) (take n msgs)) \<and>
            (n < length msgs \<longrightarrow>
               max_prompt_tokens cfg < int (used_tokens + tok (chat_message cfg (msgs ! n)))))"
proof -
  let ?L = "max_prompt_tokens cfg"
  from assms obtain sp sn where sp: "system_prompt_for cfg tok fmt date prompt_type ?L = Inr (sp, sn)"
    by (auto simp: build_prompt_def system_prompt_for_def Let_def split: sum.splits PromptType.splits)
  then have sn: "sn = tok sp" "int sn \<le> ?L" by (auto dest: system_prompt_for_Inr)
  from assms sp obtain cue cn where cue: "prompt_response cfg tok NoMessage [] (?L - int sn) = Inr (cue, cn)"
    by (auto simp: build_prompt_def system_prompt_for_def Let_def split: sum.splits PromptType.splits)
  then have cn: "cue = response_cue cfg" "cn = tok cue" "int cn \<le> ?L - int sn"
    using sn(2) by (auto dest!: prompt_response_cue)
  from assms sp cue obtain ls where ls: "chat_log_lines cfg tok ?L (sn + cn) msgs = (ls, used_tokens)"
    and pr: "prompt = sp @ concat (rev ls) @ cue"
    by (auto simp: build_prompt_def system_prompt_for_def Let_def split: sum.splits PromptType.splits prod.splits)
  from chat_log_lines_prefix [OF ls] obtain n where n: "n \<le> length msgs"
     "ls = map (chat_message cfg) (take n msgs)"
     "used_tokens = sn + cn + sum_list (map tok ls)"
     "int (sn + cn) \<le> ?L \<longrightarrow> int used_tokens \<le> ?L"
     "n < length msgs \<longrightarrow> ?L < int (used_tokens + tok (chat_message cfg (msgs ! n)))"
    by blast
  have "int used_tokens \<le> ?L" using n(4) cn(3) by simp
  moreover have "used_tokens = tok sp + tok (response_cue cfg)
                            + sum_list (map (tok \<circ> chat_message cfg) (take n msgs))"
    using n(2,3) sn(1) cn(1,2) by simp
  ultimately show ?thesis
    using n(1,2,5) sp sn(1) pr cn(1) by (intro conjI exI [of _ n] exI [of _ sp]) simp_all
qed

text \<open>With one token a line and a limit of three, one of the two messages fits.\<close>

theorem build_prompt_within_budget_witness:
  "build_prompt example_config (\<lambda>s. 1) (\<lambda>t c d. Some t) ''today'' [ann_says_hi, bo_says_yo] summary
     = Inr (''<system>RO;/#<ann>hi;/<bot>'', 3) \<and>
   int 3 \<le> max_prompt_tokens example_config"
proof -
  have h: "build_prompt example_config (\<lambda>s. 1) (\<lambda>t c d. Some t) ''today'' [ann_says_hi, bo_says_yo] summary
     = Inr (''<system>RO;/#<ann>hi;/<bot>'', 3)"
    by (simp add: build_prompt_def summary_system_prompt_def system_prompt_of_def
        prompt_response_def chat_message_def fmt_msg_user_name_def or_str_def fstr_def flatten_def
        example_config_def ann_says_hi_def bo_says_yo_def Let_def)
  from build_prompt_within_budget [OF h] h show ?thesis by simp
qed

lemma system_prompt_for_cases:
  "system_prompt_for cfg tok fmt date pt L =
     (case rendered_system_prompt cfg fmt date pt of
        None \<Rightarrow> Inl FormatRaised
      | Some sp \<Rightarrow> if L < int (tok sp) then Inl SystemPromptExceeds else Inr (sp, tok sp))"
  by (simp add: system_prompt_for_def rendered_system_prompt_def summary_system_prompt_def
      proposal_system_prompt_def system_prompt_of_def Let_def split: PromptType.splits option.splits)

lemma build_prompt_cases:
  "build_prompt cfg tok fmt date msgs pt =
     (case rendered_system_prompt cfg fmt date pt of
        None \<Rightarrow> Inl FormatRaised
      | Some sp \<Rightarrow>
          if max_prompt_tokens cfg < int (tok sp) then Inl SystemPromptExceeds
          else if max_prompt_tokens cfg < int (tok sp) + int (tok (response_cue cfg))
               then Inl PromptResponseExceeds
          else (case chat_log_lines cfg tok (max_prompt_tokens cfg)
                       (tok sp + tok (response_cue cfg)) msgs of
                  (ls, used_tokens) \<Rightarrow> Inr (sp @ concat (rev ls) @ response_cue cfg, used_tokens)))"
proof -
  have "build_prompt cfg tok fmt date msgs pt =
     (case system_prompt_for cfg tok fmt date pt (max_prompt_tokens cfg) of
           Inl e \<Rightarrow> Inl e
         | Inr (system_prompt, system_prompt_tokens) \<Rightarrow>
             (case prompt_response cfg tok NoMessage []
                     (max_prompt_tokens cfg - int system_prompt_tokens) of
                Inl e \<Rightarrow> Inl e
              | Inr (cue, cue_tokens) \<Rightarrow>
                  (case chat_log_lines cfg tok (max_prompt_tokens cfg)
                          (system_prompt_tokens + cue_tokens) msgs of
                     (ls, used_tokens) \<Rightarrow>
                       Inr (system_prompt @ concat (rev ls) @ cue, used_tokens))))"
    by (simp add: build_prompt_def system_prompt_for_def Let_def)
  also have "\<dots> = (case rendered_system_prompt cfg fmt date pt of
        None \<Rightarrow> Inl FormatRaised
      | Some sp \<Rightarrow>
          if max_prompt_tokens cfg < int (tok sp) then Inl SystemPromptExceeds
          else if max_prompt_tokens cfg < int (tok sp) + int (tok (response_cue cfg))
               then Inl PromptResponseExceeds
          else (case chat_log_lines cfg tok (max_prompt_tokens cfg)
                       (tok sp + tok (response_cue cfg)) msgs of
                  (ls, used_tokens) \<Rightarrow> Inr (sp @ concat (rev ls) @ response_cue cfg, used_tokens)))"
    by (auto simp: system_prompt_for_cases prompt_response_def response_cue_def Let_def
        split: option.splits)
  finally show ?thesis .
qed

lemma chat_log_lines_none_fit:
  "ms = [] \<or> L < int (u + tok (chat_message cfg (hd ms))) \<Longrightarrow>
   chat_log_lines cfg tok L u ms = ([], u)"
  by (cases ms) (auto simp: Let_def)

text \<open>
  Claim C9. \<open>build_prompt\<close> raises one of its two token-limit errors exactly when the
  system prompt and the response cue together count more tokens than
  \<open>max_prompt_tokens\<close>, and it returns a prompt, for every list of messages, exactly when
  the system prompt could be rendered and the two together fit. The prompt it then
  returns is the system prompt, the lines of the \<open>n\<close> most recent messages in
  chronological order for some \<open>n\<close>, and the response cue, with the sum of their token
  counts; when there is no message, or the most recent one does not fit, it is the system
  prompt followed by the response cue. When a template cannot be formatted, the error is
  that of the formatting.
\<close>

theorem build_prompt_fails_iff:
  "(build_prompt cfg tok fmt date msgs prompt_type = Inl SystemPromptExceeds \<or>
    build_prompt cfg tok fmt date msgs prompt_type = Inl PromptResponseExceeds)
   = (case rendered_system_prompt cfg fmt date prompt_type of
        None \<Rightarrow> False
      | Some sp \<Rightarrow> max_prompt_tokens cfg < int (tok sp) + int (tok (response_cue cfg))) \<and>
   (\<exists>prompt used_tokens.
      build_prompt cfg tok fmt date msgs prompt_type = Inr (prompt, used_tokens))
   = (case rendered_system_prompt cfg fmt date prompt_type of
        None \<Rightarrow> False
      | Some sp \<Rightarrow> int (tok sp) + int (tok (response_cue cfg)) \<le> max_prompt_tokens cfg) \<and>
   (case rendered_system_prompt cfg fmt date prompt_type of
      None \<Rightarrow> build_prompt cfg tok fmt date msgs prompt_type = Inl FormatRaised
    | Some sp \<Rightarrow>
        int (tok sp) + int (tok (response_cue cfg)) \<le> max_prompt_tokens cfg \<longrightarrow>
        (\<exists>n\<le>length msgs.
           build_prompt cfg tok fmt date msgs prompt_type
             = Inr (sp @ concat (rev (map (chat_message cfg) (take n msgs))) @ response_cue cfg,
                    tok sp + tok (response_cue cfg)
                      + sum_list (map (tok \<circ> chat_message cfg) (take n msgs)))) \<and>
        (msgs = [] \<or>
         max_prompt_tokens cfg
           < int (tok sp + tok (response_cue cfg) + tok (chat_message cfg (hd msgs))) \<longrightarrow>
           build_prompt cfg tok fmt date msgs prompt_type
             = Inr (sp @ response_cue cfg, tok sp + tok (response_cue cfg))))"
proof (intro conjI)
  show "(build_prompt cfg tok fmt date msgs prompt_type = Inl SystemPromptExceeds \<or>
    build_prompt cfg tok fmt date msgs prompt_type = Inl PromptResponseExceeds)
   = (case rendered_system_prompt cfg fmt date prompt_type of
        None \<Rightarrow> False
      | Some sp \<Rightarrow> max_prompt_tokens cfg < int (tok sp) + int (tok (response_cue cfg)))"
    by (auto simp: build_prompt_cases split: option.splits prod.splits)
  show "(\<exists>prompt used_tokens.
      build_prompt cfg tok fmt date msgs prompt_type = Inr (prompt, used_tokens))
   = (case rendered_system_prompt cfg fmt date prompt_type of
        None \<Rightarrow> False
      | Some sp \<Rightarrow> int (tok sp) + int (tok (response_cue cfg)) \<le> max_prompt_tokens cfg)"
    by (auto simp: build_prompt_cases split: option.splits prod.splits)
  show "case rendered_system_prompt cfg fmt date prompt_type of
      None \<Rightarrow> build_prompt cfg tok fmt date msgs prompt_type = Inl FormatRaised
    | Some sp \<Rightarrow>
        int (tok sp) + int (tok (response_cue cfg)) \<le> max_prompt_tokens cfg \<longrightarrow>
        (\<exists>n\<le>length msgs.
           build_prompt cfg tok fmt date msgs prompt_type
             = Inr (sp @ concat (rev (map (chat_message cfg) (take n msgs))) @ response_cue cfg,
                    tok sp + tok (response_cue cfg)
                      + sum_list (map (tok \<circ> chat_message cfg) (take n msgs)))) \<and>
        (msgs = [] \<or>
         max_prompt_tokens cfg
           < int (tok sp + tok (response_cue cfg) + tok (chat_message cfg (hd msgs))) \<longrightarrow>
           build_prompt cfg tok fmt date msgs prompt_type
             = Inr (sp @ response_cue cfg, tok sp + tok (response_cue cfg)))"
  proof (cases "rendered_system_prompt cfg fmt date prompt_type")
    case None
    then show ?thesis by (simp add: build_prompt_cases)
  next
    case (Some sp)
    let ?L = "max_prompt_tokens cfg"
    let ?u = "tok sp + tok (response_cue cfg)"
    have "int (tok sp) + int (tok (response_cue cfg)) \<le> ?L \<longrightarrow>
        (\<exists>n\<le>length msgs.
           build_prompt cfg tok fmt date msgs prompt_type
             = Inr (sp @ concat (rev (map (chat_message cfg) (take n msgs))) @ response_cue cfg,
                    ?u + sum_list (map (tok \<circ> chat_message cfg) (take n msgs)))) \<and>
        (msgs = [] \<or> ?L < int (?u + tok (chat_message cfg (hd msgs))) \<longrightarrow>
           build_prompt cfg tok fmt date msgs prompt_type = Inr (sp @ response_cue cfg, ?u))"
    proof (intro impI conjI)
      assume fit: "int (tok sp) + int (tok (response_cue cfg)) \<le> ?L"
      obtain ls u' where r: "chat_log_lines cfg tok ?L ?u msgs = (ls, u')"
        by (cases "chat_log_lines cfg tok ?L ?u msgs") auto
      have bp: "build_prompt cfg tok fmt date msgs prompt_type
          = Inr (sp @ concat (rev ls) @ response_cue cfg, u')"
        using Some fit r by (simp add: build_prompt_cases)
      from chat_log_lines_prefix [OF r] obtain n where n: "n \<le> length msgs"
        "ls = map (chat_message cfg) (take n msgs)" "u' = ?u + sum_list (map tok ls)"
        by blast
      show "\<exists>n\<le>length msgs.
           build_prompt cfg tok fmt date msgs prompt_type
             = Inr (sp @ concat (rev (map (chat_message cfg) (take n msgs))) @ response_cue cfg,
                    ?u + sum_list (map (tok \<circ> chat_message cfg) (take n msgs)))"
        using bp n by (intro exI [of _ n]) simp
    next
      assume fit: "int (tok sp) + int (tok (response_cue cfg)) \<le> ?L"
        and none: "msgs = [] \<or> ?L < int (?u + tok (chat_message cfg (hd msgs)))"
      have "chat_log_lines cfg tok ?L ?u msgs = ([], ?u)"
        using none by (rule chat_log_lines_none_fit)
      then show "build_prompt cfg tok fmt date msgs prompt_type = Inr (sp @ response_cue cfg, ?u)"
        using Some fit by (simp add: build_prompt_cases)
    qed
    then show ?thesis using Some by simp
  qed
qed

text \<open>The system prompt and the cue count one token each: a limit of 1 fails, a limit of 2
  gives the prompt without history, the one message being left out.\<close>

theorem build_prompt_fails_iff_witness:
  "build_prompt (example_config\<lparr>max_prompt_tokens := 1\<rparr>) (\<lambda>s. 1) (\<lambda>t c d. Some t) ''today''
       [ann_says_hi] summary = Inl PromptResponseExceeds \<and>
   build_prompt (example_config\<lparr>max_prompt_tokens := 2\<rparr>) (\<lambda>s. 1) (\<lambda>t c d. Some t) ''today''
       [ann_says_hi] summary = Inr (''<system>RO;/#<bot>'', 2)"
proof -
  have r: "rendered_system_prompt (example_config\<lparr>max_prompt_tokens := n\<rparr>) (\<lambda>t c d. Some t) ''today'' summary
      = Some ''<system>RO;/#''" for n
    by (simp add: rendered_system_prompt_def example_config_def flatten_def)
  have c: "response_cue (example_config\<lparr>max_prompt_tokens := n\<rparr>) = ''<bot>''" for n
    by (simp add: response_cue_def example_config_def)
  have a: "build_prompt (example_config\<lparr>max_prompt_tokens := 1\<rparr>) (\<lambda>s. 1) (\<lambda>t c d. Some t) ''today''
       [ann_says_hi] summary \<noteq> Inl SystemPromptExceeds"
    by (simp add: build_prompt_def summary_system_prompt_def system_prompt_of_def
        prompt_response_def example_config_def flatten_def Let_def)
  from build_prompt_fails_iff [of "example_config\<lparr>max_prompt_tokens := 1\<rparr>" "\<lambda>s. 1" "\<lambda>t c d. Some t"
          "''today''" "[ann_says_hi]" summary]
       build_prompt_fails_iff [of "example_config\<lparr>max_prompt_tokens := 2\<rparr>" "\<lambda>s. 1" "\<lambda>t c d. Some t"
          "''today''" "[ann_says_hi]" summary]
       a
  show ?thesis by (simp add: r c)
qed

section \<open>Reading the messages of a conversation\<close>

text \<open>
  Claim C10. \<open>Message.read_all\<close> with the limit \<open>0\<close> returns what it returns with no
  limit: every message of the conversation, newest first. A positive limit \<open>n\<close> keeps the
  first \<open>n\<close> of those. So the limit taken from a summary whose \<open>message_count\<close> is \<open>0\<close>
  fetches the whole history.
\<close>

theorem read_all_limit_zero:
  "Message_read_all db c (Some 0) = Message_read_all db c None \<and>
   mset (Message_read_all db c None)
     = mset (filter (\<lambda>m. msg_conversation_id m = c) (messages db)) \<and>
   sorted_wrt (\<lambda>a b. timestamp b \<le> timestamp a) (Message_read_all db c None) \<and>
   (0 < n \<longrightarrow> Message_read_all db c (Some n) = take (nat n) (Message_read_all db c None)) \<and>
   (message_count s = 0 \<longrightarrow>
      Message_read_all db c (Some (int (message_count s))) = Message_read_all db c None)"
proof -
  let ?rows = "sort_key (\<lambda>m. - int (timestamp m))
                 (filter (\<lambda>m. msg_conversation_id m = c) (messages db))"
  have "sorted (map (\<lambda>m. - int (timestamp m)) ?rows)" by (rule sorted_sort_key)
  then have "sorted_wrt (\<lambda>a b. timestamp b \<le> timestamp a) ?rows"
    by (simp add: sorted_map)
  then show ?thesis
    by (simp add: Message_read_all_def)
qed

theorem read_all_limit_zero_witness:
  "Message_read_all example_db 2 (Some 0) = [message2, message1] \<and>
   Message_read_all example_db 2 None = [message2, message1] \<and>
   Message_read_all example_db 2 (Some 1) = [message2] \<and>
   message_count summary1 = 0 \<and>
   Message_read_all example_db 2 (Some (int (message_count summary1))) = [message2, message1]"
proof -
  have n: "Message_read_all example_db 2 None = [message2, message1]"
    by (simp add: Message_read_all_def example_db_def message1_def message2_def)
  have z: "message_count summary1 = 0" by (simp add: summary1_def)
  from read_all_limit_zero [of example_db 2 1 summary1] n z show ?thesis by simp
qed

section \<open>The single active conversation\<close>

lemma find_None_filter: "find P xs = None \<Longrightarrow> filter P xs = []"
  by (induction xs) (auto split: if_splits)

lemma single_active_iff: "single_active db = (\<forall>chat. active_count db chat \<le> 1)"
proof
  assume s: "single_active db"
  show "\<forall>chat. active_count db chat \<le> 1"
  proof
    fix chat
    show "active_count db chat \<le> 1"
    proof (cases "\<exists>c \<in> set (conversations db). conv_chat_id c = chat")
      case True
      with s show ?thesis by (auto simp: single_active_def)
    next
      case False
      then have "filter (\<lambda>c. conv_chat_id c = chat \<and> conv_state c = CActive) (conversations db) = []"
        by (auto simp: filter_empty_conv)
      then show ?thesis by (simp add: active_count_def)
    qed
  qed
next
  assume "\<forall>chat. active_count db chat \<le> 1"
  then show "single_active db" by (simp add: single_active_def)
qed

lemma filter_update_first_le:
  "(\<And>x. P x \<Longrightarrow> Q (f x) \<Longrightarrow> Q x) \<Longrightarrow>
   length (filter Q (update_first P f xs)) \<le> length (filter Q xs)"
  by (induction xs) auto

lemma filter_update_first_Suc:
  "length (filter Q (update_first P f xs)) \<le> Suc (length (filter Q xs))"
  by (induction xs) auto

lemma active_count_create:
  assumes "single_active db" and "Conversation_create db now chat ag = (r, db')"
  shows "single_active db'"
proof (cases "Conversation_active db chat")
  case (Some a)
  with assms show ?thesis by (simp add: Conversation_create_def)
next
  case None
  then have z: "active_count db chat = 0"
    by (simp add: Conversation_active_def active_count_def find_None_filter)
  define c where "c = \<lparr>conv_id = next_id (map conv_id (conversations db)),
      conv_chat_id = chat, agenda = ag, conv_state = CActive, ipfs_hash = None,
      conv_created_at = now, conv_updated_at = now\<rparr>"
  have c: "conv_chat_id c = chat" by (simp add: c_def)
  have db': "db' = db\<lparr>conversations := conversations db @ [c]\<rparr>"
    using None assms(2) by (simp add: Conversation_create_def Let_def c_def)
  have "active_count db' ch \<le> 1" for ch
  proof (cases "ch = chat")
    case True
    with z show ?thesis by (simp add: db' active_count_def)
  next
    case False
    with assms(1) c show ?thesis
      by (simp add: db' active_count_def single_active_iff)
  qed
  then show ?thesis by (simp add: single_active_iff)
qed

lemma single_active_enter:
  assumes "single_active db" and "Conversation_active db chat = None"
  shows "single_active (snd (Conversation_enter db now chat cid))"
proof (cases "Conversation_read db chat cid")
  case None
  with assms show ?thesis by (simp add: Conversation_enter_def)
next
  case (Some c)
  let ?P = "\<lambda>x. conv_id x = cid \<and> conv_chat_id x = chat"
  let ?f = "\<lambda>x. x\<lparr>conv_state := CActive, conv_updated_at := now\<rparr>"
  have db': "snd (Conversation_enter db now chat cid)
      = db\<lparr>conversations := update_first ?P ?f (conversations db)\<rparr>"
    using Some by (simp add: Conversation_enter_def Let_def)
  have z: "active_count db chat = 0"
    using assms(2) by (simp add: Conversation_active_def active_count_def find_None_filter)
  have "active_count (snd (Conversation_enter db now chat cid)) ch \<le> 1" for ch
  proof (cases "ch = chat")
    case True
    have "length (filter (\<lambda>c. conv_chat_id c = chat \<and> conv_state c = CActive)
              (update_first ?P ?f (conversations db)))
          \<le> Suc (length (filter (\<lambda>c. conv_chat_id c = chat \<and> conv_state c = CActive) (conversations db)))"
      by (rule filter_update_first_Suc)
    with z True show ?thesis by (simp add: db' active_count_def)
  next
    case False
    have "length (filter (\<lambda>c. conv_chat_id c = ch \<and> conv_state c = CActive)
              (update_first ?P ?f (conversations db)))
          \<le> length (filter (\<lambda>c. conv_chat_id c = ch \<and> conv_state c = CActive) (conversations db))"
      using False by (intro filter_update_first_le) auto
    with assms(1) show ?thesis
      by (simp add: db' active_count_def single_active_iff) (meson le_trans)
  qed
  then show ?thesis by (simp add: single_active_iff)
qed

lemma single_active_update_state:
  assumes "single_active db" and "Conversation_update_state db now chat s = Inr (r, db')"
  shows "single_active db'"
proof (cases "Conversation_active db chat")
  case None
  with assms show ?thesis by (simp add: Conversation_update_state_def split: if_splits)
next
  case (Some c)
  let ?P = "\<lambda>x. conv_chat_id x = chat \<and> conv_state x = CActive"
  let ?f = "\<lambda>x. x\<lparr>conv_state := s, conv_updated_at := now\<rparr>"
  from assms(2) Some have ns: "s \<noteq> CActive"
    and db': "db' = db\<lparr>conversations := update_first ?P ?f (conversations db)\<rparr>"
    by (auto simp: Conversation_update_state_def Let_def split: if_splits)
  have "active_count db' ch \<le> 1" for ch
  proof -
    have "length (filter (\<lambda>c. conv_chat_id c = ch \<and> conv_state c = CActive)
              (update_first ?P ?f (conversations db)))
          \<le> length (filter (\<lambda>c. conv_chat_id c = ch \<and> conv_state c = CActive) (conversations db))"
      using ns by (intro filter_update_first_le) auto
    with assms(1) show ?thesis
      by (simp add: db' active_count_def single_active_iff) (meson le_trans)
  qed
  then show ?thesis by (simp add: single_active_iff)
qed

lemma single_active_set_ipfs_hash:
  assumes "single_active db" and "Conversation_set_ipfs_hash db now cid h = Inr (r, db')"
  shows "single_active db'"
proof -
  let ?P = "\<lambda>x. conv_id x = cid \<and> conv_state x = CComplete"
  let ?f = "\<lambda>x. x\<lparr>ipfs_hash := Some h, conv_updated_at := now\<rparr>"
  from assms(2) have db': "db' = db\<lparr>conversations := update_first ?P ?f (conversations db)\<rparr>"
    by (auto simp: Conversation_set_ipfs_hash_def Let_def split: option.splits)
  have "active_count db' ch \<le> 1" for ch
  proof -
    have "length (filter (\<lambda>c. conv_chat_id c = ch \<and> conv_state c = CActive)
              (update_first ?P ?f (conversations db)))
          \<le> length (filter (\<lambda>c. conv_chat_id c = ch \<and> conv_state c = CActive) (conversations db))"
      by (intro filter_update_first_le) auto
    with assms(1) show ?thesis
      by (simp add: db' active_count_def single_active_iff) (meson le_trans)
  qed
  then show ?thesis by (simp add: single_active_iff)
qed

lemma find_Some_in: "find P xs = Some x \<Longrightarrow> x \<in> set xs \<and> P x"
  by (induction xs) (auto split: if_splits)

lemma find_update_first:
  "find P xs = Some x \<Longrightarrow> P (f x) \<Longrightarrow> find P (update_first P f xs) = Some (f x)"
  by (induction xs) (auto split: if_splits)

lemma enter_existing:
  assumes "Conversation_read db chat cid = Some c"
  shows "fst (Conversation_enter db now chat cid)
           = Some (c\<lparr>conv_state := CActive, conv_updated_at := now\<rparr>)"
    and "Conversation_read (snd (Conversation_enter db now chat cid)) chat cid
           = Some (c\<lparr>conv_state := CActive, conv_updated_at := now\<rparr>)"
    and "conv_id c = cid"
proof -
  let ?P = "\<lambda>x. conv_id x = cid \<and> conv_chat_id x = chat"
  let ?f = "\<lambda>x. x\<lparr>conv_state := CActive, conv_updated_at := now\<rparr>"
  have f: "find ?P (conversations db) = Some c"
    using assms by (simp add: Conversation_read_def)
  then have pc: "?P c" by (auto dest: find_Some_in)
  then have pf: "?P (?f c)" by simp
  show "fst (Conversation_enter db now chat cid) = Some (?f c)"
    using assms by (simp add: Conversation_enter_def Let_def)
  have "find ?P (update_first ?P ?f (conversations db)) = Some (?f c)"
    using f pf by (rule find_update_first)
  then show "Conversation_read (snd (Conversation_enter db now chat cid)) chat cid = Some (?f c)"
    using assms by (simp add: Conversation_enter_def Conversation_read_def Let_def)
  show "conv_id c = cid" using pc by simp
qed

text \<open>
  Claim C1, as amended. The invariant (at most one active conversation per chat) is kept
  by every command handler of the bot and by \<open>Conversation.create\<close>. \<open>Conversation.create\<close>
  returns no result and changes nothing when the chat has an active conversation, and
  otherwise appends a new active conversation of the chat and returns it.
  \<open>Conversation.enter\<close> returns no result, and changes nothing, exactly when the
  conversation does not exist in the chat; when it exists, it is returned and is active
  afterwards, whatever else is active. \<open>Conversation.enter\<close> keeps the invariant when the
  chat has no active conversation, which is what \<open>enter_command_handler\<close> checks before it
  calls it: when the chat has one, the handler changes nothing; when it has none, the
  handler enters the conversation if it exists.
\<close>

theorem handlers_keep_single_active:
  assumes "single_active db"
  shows "single_active (snd (handle db now cmd)) \<and>
         single_active (snd (Conversation_create db now chat_id agenda_text)) \<and>
         (Conversation_active db chat_id = None \<longrightarrow>
            single_active (snd (Conversation_enter db now chat_id conversation_id))) \<and>
         (Conversation_read db chat_id conversation_id = None \<longrightarrow>
            Conversation_enter db now chat_id conversation_id = (None, db)) \<and>
         (Conversation_active db chat_id \<noteq> None \<longrightarrow>
            Conversation_create db now chat_id agenda_text = (None, db) \<and>
            enter_command_handler db now chat_id conversation_id
              = (if chat_id \<in> set (chats db) then AlreadyActive else ChatNotSetUp, db)) \<and>
         ((fst (Conversation_enter db now chat_id conversation_id) = None)
            = (Conversation_read db chat_id conversation_id = None)) \<and>
         (\<forall>c. Conversation_read db chat_id conversation_id = Some c \<longrightarrow>
            fst (Conversation_enter db now chat_id conversation_id)
              = Some (c\<lparr>conv_state := CActive, conv_updated_at := now\<rparr>) \<and>
            Conversation_read (snd (Conversation_enter db now chat_id conversation_id))
                chat_id conversation_id
              = Some (c\<lparr>conv_state := CActive, conv_updated_at := now\<rparr>)) \<and>
         (chat_id \<in> set (chats db) \<and> Conversation_active db chat_id = None \<longrightarrow>
            enter_command_handler db now chat_id conversation_id
              = (case Conversation_read db chat_id conversation_id of
                   None \<Rightarrow> (DoesNotExist, db)
                 | Some c \<Rightarrow>
                     (Entered conversation_id,
                      snd (Conversation_enter db now chat_id conversation_id)))) \<and>
         (Conversation_active db chat_id = None \<longrightarrow>
            (\<exists>c. Conversation_create db now chat_id agenda_text
                   = (Some c, db\<lparr>conversations := conversations db @ [c]\<rparr>) \<and>
                 conv_chat_id c = chat_id \<and> conv_state c = CActive \<and>
                 agenda c = agenda_text \<and> ipfs_hash c = None))"
proof -
  have cr: "single_active (snd (Conversation_create db now ch ag))" for ch ag
    using assms by (cases "Conversation_create db now ch ag") (auto dest: active_count_create)
  have up: "single_active (snd (update_command_handler db now ch s))" for ch s
    using assms
    by (auto simp: update_command_handler_def dest: single_active_update_state
        split: sum.splits option.splits prod.splits)
  have en: "single_active (snd (enter_command_handler db now ch cid))" for ch cid
  proof (cases "Conversation_active db ch")
    case None
    from single_active_enter [OF assms None, of now cid] show ?thesis
      using assms None
      by (cases "Conversation_enter db now ch cid")
         (auto simp: enter_command_handler_def split: option.splits)
  next
    case (Some a)
    then show ?thesis using assms by (simp add: enter_command_handler_def)
  qed
  have pu: "single_active (snd (push_command_handler db now ch cid h))" for ch cid h
    using assms
    by (auto simp: push_command_handler_def dest: single_active_set_ipfs_hash
        split: sum.splits option.splits prod.splits)
  have nw: "single_active (snd (new_command_handler db now ch ag))" for ch ag
    using assms cr [of ch ag]
    by (auto simp: new_command_handler_def split: option.splits prod.splits)
  have h: "single_active (snd (handle db now cmd))"
    by (cases cmd) (simp_all add: nw en up pu)
  have e1: "Conversation_active db chat_id = None \<longrightarrow>
            single_active (snd (Conversation_enter db now chat_id conversation_id))"
    using assms by (simp add: single_active_enter)
  have e2: "Conversation_read db chat_id conversation_id = None \<longrightarrow>
            Conversation_enter db now chat_id conversation_id = (None, db)"
    by (simp add: Conversation_enter_def)
  have e3: "Conversation_active db chat_id \<noteq> None \<longrightarrow>
            Conversation_create db now chat_id agenda_text = (None, db) \<and>
            enter_command_handler db now chat_id conversation_id
              = (if chat_id \<in> set (chats db) then AlreadyActive else ChatNotSetUp, db)"
    by (auto simp: Conversation_create_def enter_command_handler_def)
  have e4: "(fst (Conversation_enter db now chat_id conversation_id) = None)
            = (Conversation_read db chat_id conversation_id = None)"
    by (simp add: Conversation_enter_def Let_def split: option.splits)
  have e5: "\<forall>c. Conversation_read db chat_id conversation_id = Some c \<longrightarrow>
            fst (Conversation_enter db now chat_id conversation_id)
              = Some (c\<lparr>conv_state := CActive, conv_updated_at := now\<rparr>) \<and>
            Conversation_read (snd (Conversation_enter db now chat_id conversation_id))
                chat_id conversation_id
              = Some (c\<lparr>conv_state := CActive, conv_updated_at := now\<rparr>)"
    by (simp add: enter_existing(1,2))
  have e6: "chat_id \<in> set (chats db) \<and> Conversation_active db chat_id = None \<longrightarrow>
            enter_command_handler db now chat_id conversation_id
              = (case Conversation_read db chat_id conversation_id of
                   None \<Rightarrow> (DoesNotExist, db)
                 | Some c \<Rightarrow>
                     (Entered conversation_id,
                      snd (Conversation_enter db now chat_id conversation_id)))"
  proof (cases "Conversation_read db chat_id conversation_id")
    case None
    then show ?thesis by (simp add: enter_command_handler_def Conversation_enter_def)
  next
    case (Some c)
    from enter_existing(3) [OF Some] have "conv_id c = conversation_id" .
    then show ?thesis
      using Some by (simp add: enter_command_handler_def Conversation_enter_def Let_def)
  qed
  have e7: "Conversation_active db chat_id = None \<longrightarrow>
            (\<exists>c. Conversation_create db now chat_id agenda_text
                   = (Some c, db\<lparr>conversations := conversations db @ [c]\<rparr>) \<and>
                 conv_chat_id c = chat_id \<and> conv_state c = CActive \<and>
                 agenda c = agenda_text \<and> ipfs_hash c = None)"
    by (simp add: Conversation_create_def Let_def)
  show ?thesis
    using h cr [of chat_id agenda_text] e1 e2 e3 e4 e5 e6 e7 by blast
qed

lemmas example_rows =
  example_db_def pushed_db_def conversation1_def conversation2_def message1_def message2_def
  summary1_def

text \<open>
  In the example every handler keeps the invariant; \<open>/enter 2\<close> is refused while
  conversation 1 is active, and after \<open>/exit\<close> it makes conversation 2 the active one.
\<close>

theorem handlers_keep_single_active_witness:
  "single_active example_db \<and>
   handle example_db 9 (Enter 7 2) = (AlreadyActive, example_db) \<and>
   single_active (snd (handle example_db 9 (Exit 7))) \<and>
   Conversation_active (snd (handle example_db 9 (Exit 7))) 7 = None \<and>
   single_active (snd (Conversation_enter (snd (handle example_db 9 (Exit 7))) 10 7 2)) \<and>
   Conversation_read example_db 7 3 = None \<and>
   Conversation_enter example_db 9 7 3 = (None, example_db) \<and>
   Conversation_active example_db 7 \<noteq> None \<and>
   Conversation_create example_db 9 7 ''again'' = (None, example_db) \<and>
   Conversation_read (snd (handle example_db 9 (Exit 7))) 7 2 = Some conversation2 \<and>
   fst (handle (snd (handle example_db 9 (Exit 7))) 10 (Enter 7 2)) = Entered 2 \<and>
   Conversation_read (snd (handle (snd (handle example_db 9 (Exit 7))) 10 (Enter 7 2))) 7 2
     = Some (conversation2\<lparr>conv_state := CActive, conv_updated_at := 10\<rparr>) \<and>
   fst (Conversation_create (snd (handle example_db 9 (Exit 7))) 10 7 ''again'') \<noteq> None"
proof -
  let ?db1 = "snd (handle example_db 9 (Exit 7))"
  have s: "single_active example_db"
    by (simp add: single_active_def active_count_def example_rows)
  have n: "Conversation_active ?db1 7 = None"
    by (simp add: update_command_handler_def Conversation_update_state_def
        Conversation_active_def example_rows Let_def)
  have r: "Conversation_read example_db 7 3 = None"
    by (simp add: Conversation_read_def example_rows)
  have r2: "Conversation_read ?db1 7 2 = Some conversation2"
    by (simp add: update_command_handler_def Conversation_update_state_def
        Conversation_active_def Conversation_read_def example_rows Let_def)
  have a: "Conversation_active example_db 7 \<noteq> None"
    by (simp add: Conversation_active_def example_rows)
  have c: "7 \<in> set (chats example_db)" by (simp add: example_db_def)
  have c1: "7 \<in> set (chats ?db1)"
    by (simp add: update_command_handler_def Conversation_update_state_def
        Conversation_active_def example_rows Let_def)
  from handlers_keep_single_active [OF s, of 9 "Exit 7" 7 "''again''" 3]
  have s': "single_active ?db1" by simp
  from handlers_keep_single_active [OF s, of 9 "Enter 7 2" 7 "''again''" 3]
       handlers_keep_single_active [OF s, of 9 "Enter 7 2" 7 "''again''" 2]
       handlers_keep_single_active [OF s', of 10 "Exit 7" 7 "''again''" 2]
       s s' n r r2 a c c1
  show ?thesis by auto
qed

text \<open>
  Claim C1 as stated fails on \<open>Conversation.enter\<close>: it has no guard of its own. Entering
  conversation 2 of a chat whose conversation 1 is active returns the conversation and
  leaves two active conversations in the chat.
\<close>

theorem enter_breaks_single_active:
  "single_active example_db \<and>
   fst (Conversation_enter example_db 9 7 2) \<noteq> None \<and>
   \<not> single_active (snd (Conversation_enter example_db 9 7 2))"
  by (simp add: single_active_def active_count_def Conversation_enter_def Conversation_read_def
      example_rows Let_def)

section \<open>Publishing the transcript once\<close>

text \<open>
  Claim C4 as stated fails on \<open>Conversation.set_ipfs_hash\<close>: a second call with a
  different hash replaces the first.
\<close>

theorem set_ipfs_hash_overwrites:
  "map ipfs_hash (conversations pushed_db) = [Some ''Qm1''] \<and>
   \<not> isl (Conversation_set_ipfs_hash pushed_db 9 2 ''Qm2'') \<and>
   map ipfs_hash (conversations (snd (projr (Conversation_set_ipfs_hash pushed_db 9 2 ''Qm2''))))
     = [Some ''Qm2'']"
  by (simp add: Conversation_set_ipfs_hash_def example_rows Let_def)

lemma find_None_all: "\<forall>x \<in> set xs. \<not> P x \<Longrightarrow> find P xs = None"
  by (induction xs) auto

text \<open>
  Claim C4, as amended. Through \<open>push_command_handler\<close> the hash is written once: a
  conversation that has a hash keeps it, and the handler writes only when the
  conversation is complete and has no hash. \<open>Conversation.set_ipfs_hash\<close> itself writes to
  a conversation in state \<open>complete\<close> only, raising when there is none with that id, and
  does not look at the hash already there.
\<close>

theorem push_is_publish_once:
  "(Conversation_read db chat_id conversation_id = Some c \<and> ipfs_hash c = Some h \<longrightarrow>
      snd (push_command_handler db now chat_id conversation_id new_hash) = db) \<and>
   (snd (push_command_handler db now chat_id conversation_id new_hash) \<noteq> db \<longrightarrow>
      (\<exists>c0. Conversation_read db chat_id conversation_id = Some c0 \<and>
            conv_state c0 = CComplete \<and> ipfs_hash c0 = None)) \<and>
   (Conversation_set_ipfs_hash db now conversation_id new_hash = Inr (c', db') \<longrightarrow>
      conv_state c' = CComplete \<and> ipfs_hash c' = Some new_hash \<and>
      (\<exists>c0 \<in> set (conversations db). conv_id c0 = conversation_id \<and> conv_state c0 = CComplete)) \<and>
   ((\<forall>c0 \<in> set (conversations db). conv_id c0 = conversation_id \<longrightarrow> conv_state c0 \<noteq> CComplete) \<longrightarrow>
      Conversation_set_ipfs_hash db now conversation_id new_hash = Inl NoneHasNoAttribute)"
proof (intro conjI impI)
  assume "Conversation_read db chat_id conversation_id = Some c \<and> ipfs_hash c = Some h"
  then show "snd (push_command_handler db now chat_id conversation_id new_hash) = db"
    by (simp add: push_command_handler_def)
next
  assume "snd (push_command_handler db now chat_id conversation_id new_hash) \<noteq> db"
  then show "\<exists>c0. Conversation_read db chat_id conversation_id = Some c0 \<and>
            conv_state c0 = CComplete \<and> ipfs_hash c0 = None"
    by (auto simp: push_command_handler_def split: if_splits option.splits sum.splits)
next
  assume a: "Conversation_set_ipfs_hash db now conversation_id new_hash = Inr (c', db')"
  then obtain c0 where f: "find (\<lambda>c. conv_id c = conversation_id \<and> conv_state c = CComplete)
        (conversations db) = Some c0"
    and c': "c' = c0\<lparr>ipfs_hash := Some new_hash, conv_updated_at := now\<rparr>"
    by (auto simp: Conversation_set_ipfs_hash_def Let_def split: option.splits)
  from find_Some_in [OF f] c'
  show "conv_state c' = CComplete" and "ipfs_hash c' = Some new_hash"
    and "\<exists>c0 \<in> set (conversations db). conv_id c0 = conversation_id \<and> conv_state c0 = CComplete"
    by auto
next
  assume "\<forall>c0 \<in> set (conversations db). conv_id c0 = conversation_id \<longrightarrow> conv_state c0 \<noteq> CComplete"
  then have "find (\<lambda>c. conv_id c = conversation_id \<and> conv_state c = CComplete) (conversations db) = None"
    by (intro find_None_all) auto
  then show "Conversation_set_ipfs_hash db now conversation_id new_hash = Inl NoneHasNoAttribute"
    by (simp add: Conversation_set_ipfs_hash_def)
qed

theorem push_is_publish_once_witness:
  "Conversation_read pushed_db 7 2 = Some (conversation2\<lparr>conv_state := CComplete, ipfs_hash := Some ''Qm1''\<rparr>) \<and>
   push_command_handler pushed_db 9 7 2 ''Qm2'' = (AlreadyPushed ''Qm1'', pushed_db) \<and>
   snd (push_command_handler (pushed_db\<lparr>conversations := [conversation2\<lparr>conv_state := CComplete\<rparr>]\<rparr>)
          9 7 2 ''Qm2'')
     \<noteq> pushed_db\<lparr>conversations := [conversation2\<lparr>conv_state := CComplete\<rparr>]\<rparr> \<and>
   Conversation_set_ipfs_hash example_db 9 2 ''Qm2'' = Inl NoneHasNoAttribute \<and>
   \<not> isl (Conversation_set_ipfs_hash pushed_db 9 2 ''Qm2'')"
proof -
  let ?c = "conversation2\<lparr>conv_state := CComplete, ipfs_hash := Some ''Qm1''\<rparr>"
  let ?fresh = "pushed_db\<lparr>conversations := [conversation2\<lparr>conv_state := CComplete\<rparr>]\<rparr>"
  have r: "Conversation_read pushed_db 7 2 = Some ?c \<and> ipfs_hash ?c = Some ''Qm1''"
    by (simp add: Conversation_read_def example_rows)
  have p: "push_command_handler pushed_db 9 7 2 ''Qm2'' = (AlreadyPushed ''Qm1'', pushed_db)"
    by (simp add: push_command_handler_def Conversation_read_def example_rows)
  have d: "snd (push_command_handler ?fresh 9 7 2 ''Qm2'') \<noteq> ?fresh"
    by (simp add: push_command_handler_def Conversation_read_def Conversation_set_ipfs_hash_def
        example_rows Let_def)
  have n: "\<forall>c0 \<in> set (conversations example_db). conv_id c0 = 2 \<longrightarrow> conv_state c0 \<noteq> CComplete"
    by (simp add: example_rows)
  obtain c' db' where w: "Conversation_set_ipfs_hash pushed_db 9 2 ''Qm2'' = Inr (c', db')"
    by (simp add: Conversation_set_ipfs_hash_def example_rows Let_def)
  from push_is_publish_once [of pushed_db 7 2 ?c "''Qm1''" 9 "''Qm2''" c' db']
       push_is_publish_once [of ?fresh 7 2 ?c "''Qm1''" 9 "''Qm2''" c' db']
       push_is_publish_once [of example_db 7 2 ?c "''Qm1''" 9 "''Qm2''" c' db']
       r p d n w
  show ?thesis by simp
qed

section \<open>The rounds of yield-response\<close>

text \<open>A round that reports a stop ends the stream: here the first round does.\<close>

lemma rounds_end_at_stop:
  "fst (rounds 5 example_config fails_once (\<lambda>s. 1) 1 0 ''p'' initial_state)
     = ([(''ok'', True)], Finished)"
  by (simp add: eval_nat_numeral complete_def conversation_slot_def complete_loop.simps
      example_config_def initial_state_def fails_once_def final_response_def response_result_def
      response_slot_def store_slot_def request_params_def Let_def)

lemma complete_never_stops:
  assumes "model_engine cfg = ''llamacpp''" and "0 < max_completion_tries cfg"
  shows "fst (complete cfg never_stops tok prompt c st) = Inr (''more'', tok ''more'', False)"
proof -
  obtain sess slot st0 where cs: "conversation_slot st c = (sess, slot, st0)"
    by (cases "conversation_slot st c") auto
  have r: "reply_result tok (never_stops (posts st0) (request_params prompt slot))
             = Inr (''more'', tok ''more'', False)"
    by (simp add: never_stops_def response_result_def)
  have lt: "int 0 < max_completion_tries cfg" using assms(2) by simp
  have "complete_loop cfg never_stops tok c sess (request_params prompt slot) 0 [] slot st0
      = (Inr (''more'', tok ''more'', False),
         snd (after_attempt c sess slot (never_stops (posts st0) (request_params prompt slot)) st0))"
    using r lt by (rule complete_loop_Inr)
  then show ?thesis
    using assms(1) cs by (simp add: complete_def)
qed

lemma rounds_never_stop:
  assumes "model_engine cfg = ''llamacpp''" and "0 < max_completion_tries cfg"
  shows "fst (rounds n cfg never_stops tok c 0 prompt st) = (replicate n (''more'', False), Running)"
proof (induction n arbitrary: prompt st)
  case 0
  show ?case by simp
next
  case (Suc n)
  obtain st' where c: "complete cfg never_stops tok prompt c st = (Inr (''more'', tok ''more'', False), st')"
    using complete_never_stops [OF assms, of tok prompt c st]
    by (cases "complete cfg never_stops tok prompt c st") auto
  obtain chunks e st'' where r: "rounds n cfg never_stops tok c 0 (prompt @ ''more'') st' = ((chunks, e), st'')"
    by (cases "rounds n cfg never_stops tok c 0 (prompt @ ''more'') st'") auto
  from Suc.IH [of "prompt @ ''more''" st'] r
  have "chunks = replicate n (''more'', False)" "e = Running" by simp_all
  then show ?case
    using assms(2) c r by simp
qed

text \<open>
  Claim C2 fails on the code. With \<open>max_completion_tries = 1\<close> and a backend that never
  reports a stop, the stream is not over after any number \<open>n\<close> of pulls: it has yielded
  \<open>n\<close> chunks and is suspended with more to come. The loop tests \<open>completion_try\<close> and
  never increments it.
\<close>

theorem yield_response_unbounded:
  "fst (yield_response n
          (cfg\<lparr>model_engine := ''llamacpp'', max_completion_tries := 1, max_prompt_tokens := 0\<rparr>)
          never_stops (\<lambda>s. 0) (\<lambda>t c d. Some t) date msgs conversation_id prompt_type st)
     = (replicate n (''more'', False), Running)"
proof -
  let ?cfg = "cfg\<lparr>model_engine := ''llamacpp'', max_completion_tries := 1, max_prompt_tokens := 0\<rparr>"
  have "\<exists>p u. build_prompt ?cfg (\<lambda>s. 0) (\<lambda>t c d. Some t) date msgs prompt_type = Inr (p, u)"
    using build_prompt_cases [of ?cfg "\<lambda>s. 0" "\<lambda>t c d. Some t" date msgs prompt_type]
    by (auto simp: rendered_system_prompt_def split: PromptType.splits prod.splits)
  then obtain p u where b: "build_prompt ?cfg (\<lambda>s. 0) (\<lambda>t c d. Some t) date msgs prompt_type = Inr (p, u)"
    by blast
  have "fst (rounds n ?cfg never_stops (\<lambda>s. 0) conversation_id 0 p st)
      = (replicate n (''more'', False), Running)"
    by (rule rounds_never_stop) simp_all
  then show ?thesis
    using b by (simp add: yield_response_def)
qed

section \<open>Summaries\<close>

text \<open>
  Claim C3 fails on the code. Conversation 1 has no message; the two messages of the
  table belong to conversation 2; the summary created for conversation 1 records a
  \<open>message_count\<close> of 2.
\<close>

theorem summary_create_counts_every_conversation:
  "filter (\<lambda>m. msg_conversation_id m = 1) (messages example_db) = [] \<and>
   Message_read_all example_db 1 None = [] \<and>
   message_count (fst (Summary_create example_db 9 1)) = 2"
  by (simp add: Summary_create_def Message_read_all_def example_db_def message1_def message2_def
      Let_def)

text \<open>
  Claim C5 fails on the code. Marking the pending summary as \<open>complete\<close> records the text,
  and as its state the string \<open>SummaryState.complete\<close>, which is not the member
  \<open>complete\<close> of the enumeration.
\<close>

theorem mark_stores_the_string_of_the_state:
  "map sum_state (summaries example_db) = [Member SPending] \<and>
   \<not> isl (Summary_mark example_db 9 1 ''done'' SComplete) \<and>
   map sum_state (summaries (projr (Summary_mark example_db 9 1 ''done'' SComplete)))
     = [Str ''SummaryState.complete''] \<and>
   map sum_text (summaries (projr (Summary_mark example_db 9 1 ''done'' SComplete)))
     = [Some ''done''] \<and>
   Str ''SummaryState.complete'' \<noteq> Member SComplete"
  by (simp add: Summary_mark_def example_db_def summary1_def)

end
